theory Spec2Isabelle
  imports Complex_Main "HOL-Library.AList" "HOL-Library.Sublist"
begin

section \<open>Values, invocations and graphs\<close>

text \<open>
  A JavaScript number is an IEEE-754 binary64 value: a finite real (\<open>Finite 0\<close> is
  the positive zero), the negative zero, an infinity or NaN. The finite numbers of a
  state are binary64 values; the builder copies them, and its one computation,
  \<open>1 - strength\<close>, rounds its result to binary64.
\<close>

datatype number = Finite real | NegZero | Infinity | NegInfinity | NaN

text \<open>
  Rounding of a real to binary64, to nearest with ties to even: \<open>binade\<close> is the exponent
  \<open>e\<close> with \<open>2 ^ e \<le> x < 2 ^ (e + 1)\<close> (found by halving and doubling, which the 2200
  steps allow over more than the whole range of binary64), the spacing is
  \<open>2 ^ (e - 52)\<close>, and exponents below -1022 are subnormal.
\<close>

definition pow2 :: "int \<Rightarrow> real" where
  "pow2 k = (if 0 \<le> k then 2 ^ nat k else 1 / 2 ^ nat (- k))"

primrec binade_from :: "nat \<Rightarrow> real \<Rightarrow> int \<Rightarrow> int" where
  "binade_from 0 x e = e"
| "binade_from (Suc n) x e =
     (if 2 \<le> x then binade_from n (x / 2) (e + 1)
      else if x < 1 then binade_from n (2 * x) (e - 1)
      else e)"

definition binade :: "real \<Rightarrow> int" where
  "binade x = binade_from 2200 x 0"

definition round_half_even :: "real \<Rightarrow> int" where
  "round_half_even y =
     (let n = \<lfloor>y\<rfloor>; d = y - of_int n
      in if d < 1 / 2 then n else if 1 / 2 < d then n + 1 else if even n then n else n + 1)"

definition round64 :: "real \<Rightarrow> number" where
  "round64 r =
     (if r = 0 then Finite 0
      else
        let a = \<bar>r\<bar>;
            e = max (binade a) (- 1022);
            q = pow2 (e - 52);
            v = of_int (round_half_even (a / q)) * q
        in if 2 ^ 1024 \<le> v then (if 0 < r then Infinity else NegInfinity)
           else if v = 0 then (if 0 < r then Finite 0 else NegZero)
           else Finite (if 0 < r then v else - v))"

text \<open>The operator \<open>-\<close> on numbers.\<close>

fun js_minus :: "number \<Rightarrow> number \<Rightarrow> number" where
  "js_minus NaN y = NaN"
| "js_minus x NaN = NaN"
| "js_minus Infinity Infinity = NaN"
| "js_minus Infinity y = Infinity"
| "js_minus NegInfinity NegInfinity = NaN"
| "js_minus NegInfinity y = NegInfinity"
| "js_minus x Infinity = NegInfinity"
| "js_minus x NegInfinity = Infinity"
| "js_minus NegZero NegZero = Finite 0"
| "js_minus NegZero (Finite y) = (if y = 0 then NegZero else round64 (- y))"
| "js_minus (Finite x) NegZero = round64 x"
| "js_minus (Finite x) (Finite y) = round64 (x - y)"

text \<open>The value of a decimal literal such as \<open>0.7\<close>.\<close>

definition js_literal :: "real \<Rightarrow> number" where
  "js_literal r = round64 r"

text \<open>\<open>ImageDTO\<close> and the model field are declared outside the file; only their identity matters.\<close>

record ImageDTO =
  image_name :: string

record MainModelField =
  model_name :: string
  base_model :: string

datatype jsvalue =
    Str string
  | Num number
  | Bool bool
  | Image ImageDTO
  | Model MainModelField
  | Undefined

text \<open>
  An invocation (a node) is a JavaScript object: its properties in the order of the object
  literal. Property assignment is \<open>AList.update\<close>, property read is \<open>map_of\<close>.
\<close>

type_synonym invocation = "(string \<times> jsvalue) list"

record edge_end =
  node_id :: string
  field :: string

record edge =
  source :: edge_end
  destination :: edge_end

text \<open>\<open>NonNullableGraph\<close>: \<open>nodes\<close> is an object keyed by node id, \<open>edges\<close> an array.\<close>

record graph =
  graph_id :: string
  nodes :: "string \<rightharpoonup> invocation"
  edges :: "edge list"

text \<open>\<open>node.id\<close>, used as a computed key; a missing property is the key \<open>undefined\<close>.\<close>

definition invocation_id :: "invocation \<Rightarrow> string" where
  "invocation_id n = (case map_of n ''id'' of Some (Str s) \<Rightarrow> s | _ \<Rightarrow> ''undefined'')"

definition has_type :: "string \<Rightarrow> invocation \<Rightarrow> bool" where
  "has_type t n = (map_of n ''type'' = Some (Str t))"

section \<open>The state read by the builder\<close>

text \<open>
  The slices of \<open>RootState\<close> the builder destructures. \<open>width_gen\<close> and \<open>height_gen\<close> are
  \<open>state.generation.width\<close> and \<open>state.generation.height\<close>, which the builder does not read.
\<close>

record generation_state =
  positivePrompt :: string
  negativePrompt :: string
  model :: "MainModelField option"
  cfgScale :: number
  scheduler :: string
  steps :: number
  img2imgStrength :: number
  shouldFitToWidthHeight :: bool
  iterations :: number
  seed :: number
  shouldRandomizeSeed :: bool
  vaePrecision :: string
  shouldUseNoiseSettings :: bool
  shouldUseCpuNoise :: bool
  maskBlur :: number
  maskBlurMethod :: string
  tileSize :: number
  infillMethod :: string
  width_gen :: number
  height_gen :: number

record sdxl_state =
  positiveStylePrompt :: string
  negativeStylePrompt :: string
  shouldConcatSDXLStylePrompt :: bool
  shouldUseSDXLRefiner :: bool
  refinerStart :: number

record dimensions =
  width :: number
  height :: number

record canvas_state =
  boundingBoxDimensions :: dimensions
  scaledBoundingBoxDimensions :: dimensions
  boundingBoxScaleMethod :: string
  shouldAutoSave :: bool

record system_state =
  shouldUseNSFWChecker :: bool
  shouldUseWatermarker :: bool

record RootState =
  generation :: generation_state
  sdxl :: sdxl_state
  canvas :: canvas_state
  system :: system_state

section \<open>Imported constants and collaborators\<close>

text \<open>
  The node-id constants are imported from \<open>./constants\<close>, which is not part of the
  sources at hand: they are a parameter of the model.
\<close>

record constants =
  CANVAS_OUTPUT :: string
  COLOR_CORRECT :: string
  INPAINT :: string
  INPAINT_GRAPH :: string
  INPAINT_IMAGE :: string
  INPAINT_INFILL :: string
  ITERATE :: string
  LATENTS_TO_IMAGE :: string
  MASK_BLUR :: string
  MASK_COMBINE :: string
  MASK_FROM_ALPHA :: string
  NEGATIVE_CONDITIONING :: string
  NOISE :: string
  POSITIVE_CONDITIONING :: string
  RANDOM_INT :: string
  RANGE_OF_SIZE :: string
  SDXL_MODEL_LOADER :: string

text \<open>The sixteen node ids the builder uses as keys.\<close>

definition node_ids :: "constants \<Rightarrow> string list" where
  "node_ids K =
    [RANDOM_INT K, RANGE_OF_SIZE K, ITERATE K, NOISE K, SDXL_MODEL_LOADER K,
     POSITIVE_CONDITIONING K, NEGATIVE_CONDITIONING K, INPAINT_INFILL K, INPAINT_IMAGE K,
     MASK_FROM_ALPHA K, MASK_COMBINE K, MASK_BLUR K, INPAINT K, LATENTS_TO_IMAGE K,
     COLOR_CORRECT K, CANVAS_OUTPUT K]"

definition distinct_ids :: "constants \<Rightarrow> bool" where
  "distinct_ids K = distinct (node_ids K)"

text \<open>A thrown JavaScript exception: \<open>new Error(message)\<close>, or the engine's \<open>TypeError\<close>.\<close>

datatype error = Error string | TypeError string

text \<open>
  The augmentation stages are imported functions that mutate the graph they are given.
  They are parameters of the model: each takes the state, the graph and its anchor node
  id(s) and returns the mutated graph, or the exception it threw.
\<close>

record collaborators =
  addSDXLRefinerToGraph :: "RootState \<Rightarrow> graph \<Rightarrow> string \<Rightarrow> error + graph"
  addVAEToGraph :: "RootState \<Rightarrow> graph \<Rightarrow> string \<Rightarrow> error + graph"
  addSDXLLoRAsToGraph :: "RootState \<Rightarrow> graph \<Rightarrow> string \<Rightarrow> string \<Rightarrow> error + graph"
  addControlNetToLinearGraph :: "RootState \<Rightarrow> graph \<Rightarrow> string \<Rightarrow> error + graph"
  addNSFWCheckerToGraph :: "RootState \<Rightarrow> graph \<Rightarrow> string \<Rightarrow> error + graph"
  addWatermarkerToGraph :: "RootState \<Rightarrow> graph \<Rightarrow> string \<Rightarrow> error + graph"

text \<open>
  What a call of the builder does besides returning: it logs, and it calls the stages.
  A run is the list of these events, in order, with the value returned or the exception.
\<close>

datatype stage = SDXLRefiner | VAE | SDXLLoRAs | ControlNet | NSFWChecker | Watermarker

datatype event = LogError string | Invoked stage "string list"

type_synonym 'a run = "event list \<times> (error + 'a)"

definition invoke :: "stage \<Rightarrow> string list \<Rightarrow> (error + graph) \<Rightarrow> graph run" where
  "invoke s anchors r = ([Invoked s anchors], r)"

definition silent :: "(error + graph) \<Rightarrow> graph run" where
  "silent r = ([], r)"

text \<open>Statements in sequence: the first exception ends the run.\<close>

fun run_steps :: "(graph \<Rightarrow> graph run) list \<Rightarrow> graph \<Rightarrow> graph run" where
  "run_steps [] g = ([], Inr g)"
| "run_steps (f # fs) g =
     (case f g of
        (evs, Inl e) \<Rightarrow> (evs, Inl e)
      | (evs, Inr g') \<Rightarrow> (case run_steps fs g' of (evs', r) \<Rightarrow> (evs @ evs', r)))"

section \<open>buildCanvasSDXLOutpaintGraph\<close>

definition use_cpu :: "RootState \<Rightarrow> bool" where
  "use_cpu st =
     (if shouldUseNoiseSettings (generation st)
      then shouldUseCpuNoise (generation st)
      else shouldUseCpuNoise (generation st))"

definition infillNode :: "constants \<Rightarrow> RootState \<Rightarrow> ImageDTO \<Rightarrow> invocation" where
  "infillNode K st canvasInitImage =
     (let infill_tile =
            [(''type'', Str ''infill_tile''),
             (''id'', Str (INPAINT_INFILL K)),
             (''is_intermediate'', Bool True),
             (''image'', Image canvasInitImage),
             (''tile_size'', Num (tileSize (generation st)))]
      in if infillMethod (generation st) = ''patchmatch''
         then [(''type'', Str ''infill_patchmatch''),
               (''id'', Str (INPAINT_INFILL K)),
               (''is_intermediate'', Bool True),
               (''image'', Image canvasInitImage)]
         else infill_tile)"

definition mk_edge :: "string \<Rightarrow> string \<Rightarrow> string \<Rightarrow> string \<Rightarrow> edge" where
  "mk_edge sn sf dn df =
     \<lparr>source = \<lparr>node_id = sn, field = sf\<rparr>, destination = \<lparr>node_id = dn, field = df\<rparr>\<rparr>"

text \<open>
  An object literal defines its properties from left to right; a key that occurs again
  replaces the earlier value.
\<close>

definition object_literal :: "(string \<times> 'a) list \<Rightarrow> (string \<rightharpoonup> 'a)" where
  "object_literal ps = fold (\<lambda>(k, v) m. m(k \<mapsto> v)) ps Map.empty"

definition base_entries ::
  "constants \<Rightarrow> RootState \<Rightarrow> MainModelField \<Rightarrow> ImageDTO \<Rightarrow> ImageDTO option
     \<Rightarrow> (string \<times> invocation) list" where
  "base_entries K st mdl canvasInitImage canvasMaskImage =
     (let g = generation st; x = sdxl st;
          bb = boundingBoxDimensions (canvas st);
          inf = infillNode K st canvasInitImage
      in
      [(SDXL_MODEL_LOADER K,
         [(''type'', Str ''sdxl_model_loader''),
          (''id'', Str (SDXL_MODEL_LOADER K)),
          (''model'', Model mdl)]),
       (POSITIVE_CONDITIONING K,
         [(''type'', Str ''sdxl_compel_prompt''),
          (''id'', Str (POSITIVE_CONDITIONING K)),
          (''prompt'', Str (positivePrompt g)),
          (''style'', Str (if shouldConcatSDXLStylePrompt x
                           then positivePrompt g @ '' '' @ positiveStylePrompt x
                           else positiveStylePrompt x))]),
       (NEGATIVE_CONDITIONING K,
         [(''type'', Str ''sdxl_compel_prompt''),
          (''id'', Str (NEGATIVE_CONDITIONING K)),
          (''prompt'', Str (negativePrompt g)),
          (''style'', Str (if shouldConcatSDXLStylePrompt x
                           then negativePrompt g @ '' '' @ negativeStylePrompt x
                           else negativeStylePrompt x))]),
       (invocation_id inf, inf),
       (INPAINT_IMAGE K,
         [(''type'', Str ''i2l''),
          (''id'', Str (INPAINT_IMAGE K)),
          (''is_intermediate'', Bool True),
          (''fp32'', Bool (if vaePrecision g = ''fp32'' then True else False))]),
       (MASK_FROM_ALPHA K,
         [(''type'', Str ''tomask''),
          (''id'', Str (MASK_FROM_ALPHA K)),
          (''is_intermediate'', Bool True),
          (''image'', Image canvasInitImage)]),
       (MASK_COMBINE K,
         [(''type'', Str ''mask_combine''),
          (''id'', Str (MASK_COMBINE K)),
          (''is_intermediate'', Bool True),
          (''mask2'', (case canvasMaskImage of None \<Rightarrow> Undefined | Some i \<Rightarrow> Image i))]),
       (MASK_BLUR K,
         [(''type'', Str ''img_blur''),
          (''id'', Str (MASK_BLUR K)),
          (''is_intermediate'', Bool True),
          (''radius'', Num (maskBlur g)),
          (''blur_type'', Str (maskBlurMethod g))]),
       (NOISE K,
         [(''type'', Str ''noise''),
          (''id'', Str (NOISE K)),
          (''width'', Num (width bb)),
          (''height'', Num (height bb)),
          (''use_cpu'', Bool (use_cpu st)),
          (''is_intermediate'', Bool True)]),
       (INPAINT K,
         [(''type'', Str ''denoise_latents''),
          (''id'', Str (INPAINT K)),
          (''is_intermediate'', Bool True),
          (''steps'', Num (steps g)),
          (''cfg_scale'', Num (cfgScale g)),
          (''scheduler'', Str (scheduler g)),
          (''denoising_start'', Num (js_minus (Finite 1) (img2imgStrength g))),
          (''denoising_end'', Num (if shouldUseSDXLRefiner x then refinerStart x else Finite 1))]),
       (LATENTS_TO_IMAGE K,
         [(''type'', Str ''l2i''),
          (''id'', Str (LATENTS_TO_IMAGE K)),
          (''is_intermediate'', Bool True),
          (''fp32'', Bool (if vaePrecision g = ''fp32'' then True else False))]),
       (COLOR_CORRECT K,
         [(''type'', Str ''color_correct''),
          (''id'', Str (COLOR_CORRECT K)),
          (''is_intermediate'', Bool True)]),
       (CANVAS_OUTPUT K,
         [(''type'', Str ''img_paste''),
          (''id'', Str (CANVAS_OUTPUT K)),
          (''is_intermediate'', Bool True)]),
       (RANGE_OF_SIZE K,
         [(''type'', Str ''range_of_size''),
          (''id'', Str (RANGE_OF_SIZE K)),
          (''is_intermediate'', Bool True),
          (''size'', Num (iterations g)),
          (''step'', Num (Finite 1))]),
       (ITERATE K,
         [(''type'', Str ''iterate''),
          (''id'', Str (ITERATE K)),
          (''is_intermediate'', Bool True)])])"

definition base_nodes ::
  "constants \<Rightarrow> RootState \<Rightarrow> MainModelField \<Rightarrow> ImageDTO \<Rightarrow> ImageDTO option
     \<Rightarrow> (string \<rightharpoonup> invocation)" where
  "base_nodes K st mdl canvasInitImage canvasMaskImage =
     object_literal (base_entries K st mdl canvasInitImage canvasMaskImage)"

definition base_edges :: "constants \<Rightarrow> edge list" where
  "base_edges K =
     [mk_edge (SDXL_MODEL_LOADER K) ''unet'' (INPAINT K) ''unet'',
      mk_edge (SDXL_MODEL_LOADER K) ''clip'' (POSITIVE_CONDITIONING K) ''clip'',
      mk_edge (SDXL_MODEL_LOADER K) ''clip2'' (POSITIVE_CONDITIONING K) ''clip2'',
      mk_edge (SDXL_MODEL_LOADER K) ''clip'' (NEGATIVE_CONDITIONING K) ''clip'',
      mk_edge (SDXL_MODEL_LOADER K) ''clip2'' (NEGATIVE_CONDITIONING K) ''clip2'',
      mk_edge (INPAINT_INFILL K) ''image'' (INPAINT_IMAGE K) ''image'',
      mk_edge (MASK_FROM_ALPHA K) ''mask'' (MASK_COMBINE K) ''mask1'',
      mk_edge (MASK_COMBINE K) ''image'' (MASK_BLUR K) ''image'',
      mk_edge (POSITIVE_CONDITIONING K) ''conditioning'' (INPAINT K) ''positive_conditioning'',
      mk_edge (NEGATIVE_CONDITIONING K) ''conditioning'' (INPAINT K) ''negative_conditioning'',
      mk_edge (NOISE K) ''noise'' (INPAINT K) ''noise'',
      mk_edge (INPAINT_IMAGE K) ''latents'' (INPAINT K) ''latents'',
      mk_edge (MASK_BLUR K) ''image'' (INPAINT K) ''mask'',
      mk_edge (RANGE_OF_SIZE K) ''collection'' (ITERATE K) ''collection'',
      mk_edge (ITERATE K) ''item'' (NOISE K) ''seed'',
      mk_edge (INPAINT K) ''latents'' (LATENTS_TO_IMAGE K) ''latents'',
      mk_edge (INPAINT_INFILL K) ''image'' (COLOR_CORRECT K) ''reference'',
      mk_edge (LATENTS_TO_IMAGE K) ''image'' (COLOR_CORRECT K) ''image'',
      mk_edge (MASK_BLUR K) ''image'' (COLOR_CORRECT K) ''mask'',
      mk_edge (INPAINT_INFILL K) ''image'' (CANVAS_OUTPUT K) ''base_image'',
      mk_edge (COLOR_CORRECT K) ''image'' (CANVAS_OUTPUT K) ''image'',
      mk_edge (MASK_BLUR K) ''image'' (CANVAS_OUTPUT K) ''mask'']"

text \<open>The graph literal of the builder (source lines 111 to 440).\<close>

definition base_graph ::
  "constants \<Rightarrow> RootState \<Rightarrow> MainModelField \<Rightarrow> ImageDTO \<Rightarrow> ImageDTO option \<Rightarrow> graph" where
  "base_graph K st mdl canvasInitImage canvasMaskImage =
     \<lparr>graph_id = INPAINT_GRAPH K,
      nodes = base_nodes K st mdl canvasInitImage canvasMaskImage,
      edges = base_edges K\<rparr>"

text \<open>
  The seed handling (source lines 451 to 468). Assigning \<open>start\<close> on a node that is no
  longer in the graph is a \<open>TypeError\<close> of the engine.
\<close>

definition handle_seed :: "constants \<Rightarrow> RootState \<Rightarrow> graph \<Rightarrow> error + graph" where
  "handle_seed K st g =
     (if shouldRandomizeSeed (generation st) then
        (let randomIntNode = [(''id'', Str (RANDOM_INT K)), (''type'', Str ''rand_int'')];
             g1 = g\<lparr>nodes := (nodes g)(RANDOM_INT K \<mapsto> randomIntNode)\<rparr>
         in Inr (g1\<lparr>edges := edges g1 @ [mk_edge (RANDOM_INT K) ''a'' (RANGE_OF_SIZE K) ''start'']\<rparr>))
      else
        (case nodes g (RANGE_OF_SIZE K) of
           None \<Rightarrow> Inl (TypeError ''Cannot set properties of undefined (setting 'start')'')
         | Some n \<Rightarrow>
             Inr (g\<lparr>nodes := (nodes g)(RANGE_OF_SIZE K \<mapsto>
                                 AList.update ''start'' (Num (seed (generation st))) n)\<rparr>)))"

text \<open>The statements after the graph literal, in source order.\<close>

definition build_steps ::
  "constants \<Rightarrow> collaborators \<Rightarrow> RootState \<Rightarrow> (graph \<Rightarrow> graph run) list" where
  "build_steps K C st =
     [\<lambda>g. if shouldUseSDXLRefiner (sdxl st)
          then invoke SDXLRefiner [INPAINT K] (addSDXLRefinerToGraph C st g (INPAINT K))
          else silent (Inr g),
      \<lambda>g. invoke VAE [SDXL_MODEL_LOADER K] (addVAEToGraph C st g (SDXL_MODEL_LOADER K)),
      \<lambda>g. silent (handle_seed K st g),
      \<lambda>g. invoke SDXLLoRAs [INPAINT K, SDXL_MODEL_LOADER K]
             (addSDXLLoRAsToGraph C st g (INPAINT K) (SDXL_MODEL_LOADER K)),
      \<lambda>g. invoke ControlNet [INPAINT K] (addControlNetToLinearGraph C st g (INPAINT K)),
      \<lambda>g. if shouldUseNSFWChecker (system st)
          then invoke NSFWChecker [CANVAS_OUTPUT K] (addNSFWCheckerToGraph C st g (CANVAS_OUTPUT K))
          else silent (Inr g),
      \<lambda>g. if shouldUseWatermarker (system st)
          then invoke Watermarker [CANVAS_OUTPUT K] (addWatermarkerToGraph C st g (CANVAS_OUTPUT K))
          else silent (Inr g)]"

definition buildCanvasSDXLOutpaintGraph ::
  "constants \<Rightarrow> collaborators \<Rightarrow> RootState \<Rightarrow> ImageDTO \<Rightarrow> ImageDTO option \<Rightarrow> graph run" where
  "buildCanvasSDXLOutpaintGraph K C st canvasInitImage canvasMaskImage =
     (case model (generation st) of
        None \<Rightarrow> ([LogError ''No model found in state''], Inl (Error ''No model found in state''))
      | Some mdl \<Rightarrow>
          run_steps (build_steps K C st) (base_graph K st mdl canvasInitImage canvasMaskImage))"

section \<open>Properties of graphs and of stages\<close>

text \<open>The calls the builder makes to its collaborators, with the anchors it passes.\<close>

definition stage_calls ::
  "constants \<Rightarrow> collaborators \<Rightarrow> RootState \<Rightarrow> (graph \<Rightarrow> error + graph) list" where
  "stage_calls K C st =
     [\<lambda>g. addSDXLRefinerToGraph C st g (INPAINT K),
      \<lambda>g. addVAEToGraph C st g (SDXL_MODEL_LOADER K),
      \<lambda>g. addSDXLLoRAsToGraph C st g (INPAINT K) (SDXL_MODEL_LOADER K),
      \<lambda>g. addControlNetToLinearGraph C st g (INPAINT K),
      \<lambda>g. addNSFWCheckerToGraph C st g (CANVAS_OUTPUT K),
      \<lambda>g. addWatermarkerToGraph C st g (CANVAS_OUTPUT K)]"

text \<open>Frame conditions on a stage call: what it may be assumed to leave alone.\<close>

definition returns :: "(graph \<Rightarrow> error + graph) \<Rightarrow> bool" where
  "returns f = (\<forall>g. \<exists>g'. f g = Inr g')"

definition leaves_node :: "string \<Rightarrow> (graph \<Rightarrow> error + graph) \<Rightarrow> bool" where
  "leaves_node k f = (\<forall>g g'. f g = Inr g' \<longrightarrow> nodes g' k = nodes g k)"

definition keeps_edge :: "edge \<Rightarrow> (graph \<Rightarrow> error + graph) \<Rightarrow> bool" where
  "keeps_edge e f = (\<forall>g g'. f g = Inr g' \<longrightarrow> e \<in> set (edges g) \<longrightarrow> e \<in> set (edges g'))"

definition adds_no_type :: "string \<Rightarrow> (graph \<Rightarrow> error + graph) \<Rightarrow> bool" where
  "adds_no_type t f =
     (\<forall>g g' k n. f g = Inr g' \<longrightarrow> nodes g' k = Some n \<longrightarrow> has_type t n \<longrightarrow> nodes g k = Some n)"

text \<open>The stage calls of a completed run, in the order of the specification (4.5).\<close>

definition expected_events :: "constants \<Rightarrow> RootState \<Rightarrow> event list" where
  "expected_events K st =
     (if shouldUseSDXLRefiner (sdxl st) then [Invoked SDXLRefiner [INPAINT K]] else []) @
     [Invoked VAE [SDXL_MODEL_LOADER K],
      Invoked SDXLLoRAs [INPAINT K, SDXL_MODEL_LOADER K],
      Invoked ControlNet [INPAINT K]] @
     (if shouldUseNSFWChecker (system st) then [Invoked NSFWChecker [CANVAS_OUTPUT K]] else []) @
     (if shouldUseWatermarker (system st) then [Invoked Watermarker [CANVAS_OUTPUT K]] else [])"

text \<open>The last stage call of a completed run.\<close>

definition last_stage_call ::
  "constants \<Rightarrow> collaborators \<Rightarrow> RootState \<Rightarrow> graph \<Rightarrow> error + graph" where
  "last_stage_call K C st g =
     (if shouldUseWatermarker (system st) then addWatermarkerToGraph C st g (CANVAS_OUTPUT K)
      else if shouldUseNSFWChecker (system st) then addNSFWCheckerToGraph C st g (CANVAS_OUTPUT K)
      else addControlNetToLinearGraph C st g (INPAINT K))"

text \<open>The field of a node of the graph, if the node and the field are there.\<close>

definition node_field :: "graph \<Rightarrow> string \<Rightarrow> string \<Rightarrow> jsvalue option" where
  "node_field g k f = (case nodes g k of None \<Rightarrow> None | Some n \<Rightarrow> map_of n f)"

text \<open>
  The augmentation pipeline as the specification words it (4.5): the stages in their
  order, each with its enabling condition, the call it is recorded as (none for the seed
  handling, which is the builder's own) and what it does to the graph. A stage that is
  enabled is recorded and applied to the graph left by the stages before it; the first
  exception ends the run.
\<close>

definition ordered_stages ::
  "constants \<Rightarrow> collaborators \<Rightarrow> RootState
     \<Rightarrow> (bool \<times> event list \<times> (graph \<Rightarrow> error + graph)) list" where
  "ordered_stages K C st =
     [(shouldUseSDXLRefiner (sdxl st), [Invoked SDXLRefiner [INPAINT K]],
         \<lambda>g. addSDXLRefinerToGraph C st g (INPAINT K)),
      (True, [Invoked VAE [SDXL_MODEL_LOADER K]],
         \<lambda>g. addVAEToGraph C st g (SDXL_MODEL_LOADER K)),
      (True, [], handle_seed K st),
      (True, [Invoked SDXLLoRAs [INPAINT K, SDXL_MODEL_LOADER K]],
         \<lambda>g. addSDXLLoRAsToGraph C st g (INPAINT K) (SDXL_MODEL_LOADER K)),
      (True, [Invoked ControlNet [INPAINT K]],
         \<lambda>g. addControlNetToLinearGraph C st g (INPAINT K)),
      (shouldUseNSFWChecker (system st), [Invoked NSFWChecker [CANVAS_OUTPUT K]],
         \<lambda>g. addNSFWCheckerToGraph C st g (CANVAS_OUTPUT K)),
      (shouldUseWatermarker (system st), [Invoked Watermarker [CANVAS_OUTPUT K]],
         \<lambda>g. addWatermarkerToGraph C st g (CANVAS_OUTPUT K))]"

fun staged_run ::
  "(bool \<times> event list \<times> (graph \<Rightarrow> error + graph)) list \<Rightarrow> event list \<Rightarrow> graph
     \<Rightarrow> graph run" where
  "staged_run [] evs g = (evs, Inr g)"
| "staged_run ((enabled, calls, f) # ss) evs g =
     (if enabled
      then (case f g of
              Inl e \<Rightarrow> (evs @ calls, Inl e)
            | Inr g' \<Rightarrow> staged_run ss (evs @ calls) g')
      else staged_run ss evs g)"

text \<open>The structural invariants of the specification (section 3).\<close>

definition ids_match_keys :: "graph \<Rightarrow> bool" where
  "ids_match_keys g = (\<forall>k n. nodes g k = Some n \<longrightarrow> invocation_id n = k)"

definition endpoints_resolvable :: "graph \<Rightarrow> bool" where
  "endpoints_resolvable g =
     (\<forall>e \<in> set (edges g).
        node_id (source e) \<in> dom (nodes g) \<and> node_id (destination e) \<in> dom (nodes g))"

definition single_writer :: "graph \<Rightarrow> bool" where
  "single_writer g = distinct (map destination (edges g))"

definition edge_rel :: "graph \<Rightarrow> (string \<times> string) set" where
  "edge_rel g = (\<lambda>e. (node_id (source e), node_id (destination e))) ` set (edges g)"

fun position :: "'a list \<Rightarrow> 'a \<Rightarrow> nat option" where
  "position [] x = None"
| "position (y # ys) x = (if x = y then Some 0 else map_option Suc (position ys x))"

text \<open>A list of node ids is a topological order when every edge goes forward in it.\<close>

definition is_topological_order :: "string list \<Rightarrow> graph \<Rightarrow> bool" where
  "is_topological_order order g =
     (\<forall>e \<in> set (edges g).
        case (position order (node_id (source e)), position order (node_id (destination e))) of
          (Some i, Some j) \<Rightarrow> i < j
        | _ \<Rightarrow> False)"

definition anchors_present :: "constants \<Rightarrow> graph \<Rightarrow> bool" where
  "anchors_present K g =
     (\<forall>k \<in> {SDXL_MODEL_LOADER K, POSITIVE_CONDITIONING K, NEGATIVE_CONDITIONING K, CANVAS_OUTPUT K}.
        k \<in> dom (nodes g))"

text \<open>
  Modelled from the spec: the Graph Validator (4.6), of which the sources have no
  counterpart. It checks node-id uniqueness, resolvable endpoints, one writer per
  destination port, acyclicity and the presence of the anchor nodes.
\<close>

definition validate :: "constants \<Rightarrow> graph \<Rightarrow> bool" where
  "validate K g =
     (ids_match_keys g \<and> endpoints_resolvable g \<and> single_writer g \<and>
      acyclic (edge_rel g) \<and> anchors_present K g)"

text \<open>No node of the graph has the given type.\<close>

definition no_node_of_type :: "string \<Rightarrow> graph \<Rightarrow> bool" where
  "no_node_of_type t g = (\<forall>k r. nodes g k = Some r \<longrightarrow> \<not> has_type t r)"


section \<open>Concrete inputs\<close>

definition sample_constants :: constants where
  "sample_constants =
     \<lparr>CANVAS_OUTPUT = ''canvas_output'',
      COLOR_CORRECT = ''color_correct'',
      INPAINT = ''inpaint'',
      INPAINT_GRAPH = ''inpaint_graph'',
      INPAINT_IMAGE = ''inpaint_image'',
      INPAINT_INFILL = ''inpaint_infill'',
      ITERATE = ''iterate'',
      LATENTS_TO_IMAGE = ''latents_to_image'',
      MASK_BLUR = ''mask_blur'',
      MASK_COMBINE = ''mask_combine'',
      MASK_FROM_ALPHA = ''tomask'',
      NEGATIVE_CONDITIONING = ''negative_conditioning'',
      NOISE = ''noise'',
      POSITIVE_CONDITIONING = ''positive_conditioning'',
      RANDOM_INT = ''rand_int'',
      RANGE_OF_SIZE = ''range_of_size'',
      SDXL_MODEL_LOADER = ''sdxl_model_loader''\<rparr>"

definition sample_image :: ImageDTO where
  "sample_image = \<lparr>image_name = ''canvas.png''\<rparr>"

definition sample_model :: MainModelField where
  "sample_model = \<lparr>model_name = ''sd_xl_base_1.0'', base_model = ''sdxl''\<rparr>"

text \<open>
  Strength \<open>0.7\<close>, four iterations, seed 42 not randomised, tile infill, no refiner
  (hand-off \<open>0.8\<close>).
\<close>

definition sample_state :: RootState where
  "sample_state =
     \<lparr>generation =
        \<lparr>positivePrompt = ''a castle'', negativePrompt = ''blurry'',
         model = Some sample_model, cfgScale = Finite 7.5, scheduler = ''euler'', steps = Finite 30,
         img2imgStrength = js_literal (7 / 10), shouldFitToWidthHeight = False,
         iterations = Finite 4, seed = Finite 42,
         shouldRandomizeSeed = False, vaePrecision = ''fp32'',
         shouldUseNoiseSettings = False, shouldUseCpuNoise = True, maskBlur = Finite 16,
         maskBlurMethod = ''box'', tileSize = Finite 32, infillMethod = ''tile'',
         width_gen = Finite 512, height_gen = Finite 512\<rparr>,
      sdxl =
        \<lparr>positiveStylePrompt = ''oil painting'', negativeStylePrompt = ''grainy'',
         shouldConcatSDXLStylePrompt = True, shouldUseSDXLRefiner = False,
         refinerStart = js_literal (4 / 5)\<rparr>,
      canvas =
        \<lparr>boundingBoxDimensions = \<lparr>width = Finite 1024, height = Finite 768\<rparr>,
         scaledBoundingBoxDimensions = \<lparr>width = Finite 1024, height = Finite 768\<rparr>,
         boundingBoxScaleMethod = ''none'', shouldAutoSave = False\<rparr>,
      system = \<lparr>shouldUseNSFWChecker = True, shouldUseWatermarker = True\<rparr>\<rparr>"

text \<open>The same with the refiner on (hand-off 0.8), a random seed and patch-match infill.\<close>

definition sample_state_refined :: RootState where
  "sample_state_refined =
     sample_state
       \<lparr>generation := (generation sample_state)
          \<lparr>shouldRandomizeSeed := True, infillMethod := ''patchmatch''\<rparr>,
        sdxl := (sdxl sample_state)\<lparr>shouldUseSDXLRefiner := True\<rparr>\<rparr>"

text \<open>The configuration without a model.\<close>

definition sample_state_no_model :: RootState where
  "sample_state_no_model =
     sample_state\<lparr>generation := (generation sample_state)\<lparr>model := None\<rparr>\<rparr>"

text \<open>A stage that puts one node behind its anchor, and stages that do nothing.\<close>

definition append_node :: "string \<Rightarrow> string \<Rightarrow> graph \<Rightarrow> string \<Rightarrow> error + graph" where
  "append_node k t g anchor =
     Inr (g\<lparr>nodes := (nodes g)(k \<mapsto> [(''id'', Str k), (''type'', Str t)]),
           edges := edges g @ [mk_edge anchor ''image'' k ''image'']\<rparr>)"

definition sample_stages :: collaborators where
  "sample_stages =
     \<lparr>addSDXLRefinerToGraph = (\<lambda>st g a. Inr g),
      addVAEToGraph = (\<lambda>st g a. Inr g),
      addSDXLLoRAsToGraph = (\<lambda>st g a b. Inr g),
      addControlNetToLinearGraph = (\<lambda>st g a. Inr g),
      addNSFWCheckerToGraph = (\<lambda>st. append_node ''nsfw_checker'' ''img_nsfw''),
      addWatermarkerToGraph = (\<lambda>st. append_node ''invisible_watermark'' ''img_watermark'')\<rparr>"

text \<open>Stages of which the watermarker adds an edge from a node that is not in the graph.\<close>

definition dangling_stages :: collaborators where
  "dangling_stages =
     sample_stages
       \<lparr>addWatermarkerToGraph :=
          (\<lambda>st g a. Inr (g\<lparr>edges := edges g @ [mk_edge ''missing'' ''image'' a ''image'']\<rparr>))\<rparr>"

text \<open>Stages of which the VAE stage already writes the range generator's \<open>start\<close> port.\<close>

definition double_write_stages :: collaborators where
  "double_write_stages =
     sample_stages
       \<lparr>addVAEToGraph :=
          (\<lambda>st g a. Inr (g\<lparr>edges := edges g @ [mk_edge a ''vae'' ''range_of_size'' ''start'']\<rparr>))\<rparr>"

text \<open>The run of the builder on the first configuration.\<close>

definition sample_run :: "graph run" where
  "sample_run =
     buildCanvasSDXLOutpaintGraph sample_constants sample_stages sample_state sample_image None"

text \<open>The runs of the builder on the two sets of misbehaving stages.\<close>

definition dangling_run :: "graph run" where
  "dangling_run =
     buildCanvasSDXLOutpaintGraph sample_constants dangling_stages sample_state sample_image None"

definition double_write_run :: "graph run" where
  "double_write_run =
     buildCanvasSDXLOutpaintGraph sample_constants double_write_stages sample_state_refined
       sample_image None"

text \<open>Stages that all return the graph as they got it.\<close>

definition quiet_stages :: collaborators where
  "quiet_stages =
     \<lparr>addSDXLRefinerToGraph = (\<lambda>st g a. Inr g),
      addVAEToGraph = (\<lambda>st g a. Inr g),
      addSDXLLoRAsToGraph = (\<lambda>st g a b. Inr g),
      addControlNetToLinearGraph = (\<lambda>st g a. Inr g),
      addNSFWCheckerToGraph = (\<lambda>st g a. Inr g),
      addWatermarkerToGraph = (\<lambda>st g a. Inr g)\<rparr>"

text \<open>The order in which the directly built nodes can be scheduled.\<close>

definition assembly_order :: "constants \<Rightarrow> string list" where
  "assembly_order K = node_ids K"

section \<open>Object literals and the nodes of the graph literal\<close>

lemma fold_upd_map_of:
  "fold (\<lambda>p m. m(fst p \<mapsto> snd p)) ps m0 = m0 ++ map_of (rev ps)"
proof (induction ps arbitrary: m0)
  case Nil
  show ?case by simp
next
  case (Cons p ps)
  have "fold (\<lambda>p m. m(fst p \<mapsto> snd p)) (p # ps) m0 = m0(fst p \<mapsto> snd p) ++ map_of (rev ps)"
    by (simp only: fold_simps comp_apply Cons.IH)
  also have "\<dots> = m0 ++ map_of (rev (p # ps))"
    by (rule ext) (simp add: map_add_def split: option.split)
  finally show ?case .
qed

lemma object_literal_rev: "object_literal ps = map_of (rev ps)"
  by (simp add: object_literal_def case_prod_unfold fold_upd_map_of)

lemma object_literal_SomeD: "object_literal ps k = Some v \<Longrightarrow> (k, v) \<in> set ps"
  using map_of_SomeD [of "rev ps" k v] by (simp add: object_literal_rev)

lemma object_literal_distinct:
  "distinct (map fst ps) \<Longrightarrow> (object_literal ps k = Some v) = ((k, v) \<in> set ps)"
  using map_of_eq_Some_iff [of "rev ps" k v] by (simp add: object_literal_rev rev_map [symmetric])

lemma dom_object_literal: "dom (object_literal ps) = fst ` set ps"
  by (simp add: object_literal_rev dom_map_of_conv_image_fst)

lemma distinct_ids_both:
  "distinct_ids K \<Longrightarrow> distinct (node_ids K) \<and> distinct (rev (node_ids K))"
  by (simp add: distinct_ids_def)

lemma infill_id [simp]: "invocation_id (infillNode K st i) = INPAINT_INFILL K"
  by (simp add: infillNode_def invocation_id_def)

lemma base_keys:
  "map fst (base_entries K st mdl i m) =
     [SDXL_MODEL_LOADER K, POSITIVE_CONDITIONING K, NEGATIVE_CONDITIONING K, INPAINT_INFILL K,
      INPAINT_IMAGE K, MASK_FROM_ALPHA K, MASK_COMBINE K, MASK_BLUR K, NOISE K, INPAINT K,
      LATENTS_TO_IMAGE K, COLOR_CORRECT K, CANVAS_OUTPUT K, RANGE_OF_SIZE K, ITERATE K]"
  by (simp add: base_entries_def Let_def)

lemma base_keys_distinct: "distinct_ids K \<Longrightarrow> distinct (map fst (base_entries K st mdl i m))"
  unfolding base_keys by (drule distinct_ids_both) (simp add: node_ids_def)

lemma base_nodes_iff:
  "distinct_ids K \<Longrightarrow>
     (base_nodes K st mdl i m k = Some n) = ((k, n) \<in> set (base_entries K st mdl i m))"
  by (simp add: base_nodes_def object_literal_distinct base_keys_distinct)

lemma base_nodes_SomeD:
  "base_nodes K st mdl i m k = Some n \<Longrightarrow> (k, n) \<in> set (base_entries K st mdl i m)"
  by (simp add: base_nodes_def object_literal_SomeD)

lemma dom_base_nodes:
  "dom (base_nodes K st mdl i m) = set (map fst (base_entries K st mdl i m))"
  by (simp add: base_nodes_def dom_object_literal)

lemma base_INPAINT:
  "distinct_ids K \<Longrightarrow> base_nodes K st mdl i m (INPAINT K) = Some
         [(''type'', Str ''denoise_latents''),
          (''id'', Str (INPAINT K)),
          (''is_intermediate'', Bool True),
          (''steps'', Num (steps (generation st))),
          (''cfg_scale'', Num (cfgScale (generation st))),
          (''scheduler'', Str (scheduler (generation st))),
          (''denoising_start'', Num (js_minus (Finite 1) (img2imgStrength (generation st)))),
          (''denoising_end'', Num (if shouldUseSDXLRefiner (sdxl st) then refinerStart (sdxl st) else Finite 1))]"
  by (simp add: base_nodes_iff) (simp add: base_entries_def Let_def)

section \<open>Runs of the builder\<close>

lemma infill_has_type [simp]:
  "has_type t (infillNode K st i) =
     (t = (if infillMethod (generation st) = ''patchmatch'' then ''infill_patchmatch''
           else ''infill_tile''))"
  by (auto simp add: infillNode_def has_type_def)

lemma base_no_rand_int:
  "base_nodes K st mdl i m k = Some n \<Longrightarrow> \<not> has_type ''rand_int'' n"
  by (drule base_nodes_SomeD) (auto simp add: base_entries_def Let_def, auto simp add: has_type_def split: if_splits)


lemma run_steps_Cons_Inr:
  "run_steps (f # fs) g = (evs, Inr g') \<longleftrightarrow>
     (\<exists>e1 g1 e2. f g = (e1, Inr g1) \<and> run_steps fs g1 = (e2, Inr g') \<and> evs = e1 @ e2)"
  by (auto split: prod.splits sum.splits)

lemma build_steps_Inr:
  "run_steps (build_steps K C st) g0 = (evs, Inr g) \<longleftrightarrow>
     (\<exists>g1 g2 g3 g4 g5 g6.
        (if shouldUseSDXLRefiner (sdxl st)
         then addSDXLRefinerToGraph C st g0 (INPAINT K) = Inr g1 else g1 = g0) \<and>
        addVAEToGraph C st g1 (SDXL_MODEL_LOADER K) = Inr g2 \<and>
        handle_seed K st g2 = Inr g3 \<and>
        addSDXLLoRAsToGraph C st g3 (INPAINT K) (SDXL_MODEL_LOADER K) = Inr g4 \<and>
        addControlNetToLinearGraph C st g4 (INPAINT K) = Inr g5 \<and>
        (if shouldUseNSFWChecker (system st)
         then addNSFWCheckerToGraph C st g5 (CANVAS_OUTPUT K) = Inr g6 else g6 = g5) \<and>
        (if shouldUseWatermarker (system st)
         then addWatermarkerToGraph C st g6 (CANVAS_OUTPUT K) = Inr g else g = g6) \<and>
        evs = expected_events K st)"
  unfolding build_steps_def run_steps_Cons_Inr
  by (simp add: invoke_def silent_def expected_events_def) blast

lemma build_Inr:
  "buildCanvasSDXLOutpaintGraph K C st i m = (evs, Inr g) \<longleftrightarrow>
     (\<exists>mdl. model (generation st) = Some mdl \<and>
        run_steps (build_steps K C st) (base_graph K st mdl i m) = (evs, Inr g))"
  by (simp add: buildCanvasSDXLOutpaintGraph_def split: option.split)

text \<open>An invariant in two phases: \<open>P\<close> before the seed handling, \<open>Q\<close> after it.\<close>

lemma stage_callsD:
  assumes "\<forall>f \<in> set (stage_calls K C st). R f"
  shows "R (\<lambda>g. addSDXLRefinerToGraph C st g (INPAINT K))"
    and "R (\<lambda>g. addVAEToGraph C st g (SDXL_MODEL_LOADER K))"
    and "R (\<lambda>g. addSDXLLoRAsToGraph C st g (INPAINT K) (SDXL_MODEL_LOADER K))"
    and "R (\<lambda>g. addControlNetToLinearGraph C st g (INPAINT K))"
    and "R (\<lambda>g. addNSFWCheckerToGraph C st g (CANVAS_OUTPUT K))"
    and "R (\<lambda>g. addWatermarkerToGraph C st g (CANVAS_OUTPUT K))"
  using assms by (simp_all add: stage_calls_def)

lemma build_steps_phases:
  assumes pre: "\<forall>f \<in> set (stage_calls K C st). \<forall>g g'. P g \<longrightarrow> f g = Inr g' \<longrightarrow> P g'"
      and mid: "\<And>g g'. P g \<Longrightarrow> handle_seed K st g = Inr g' \<Longrightarrow> Q g'"
      and post: "\<forall>f \<in> set (stage_calls K C st). \<forall>g g'. Q g \<longrightarrow> f g = Inr g' \<longrightarrow> Q g'"
      and init: "P g0"
      and run: "run_steps (build_steps K C st) g0 = (evs, Inr g)"
  shows "Q g"
proof -
  from run obtain g1 g2 g3 g4 g5 g6 where
    s1: "if shouldUseSDXLRefiner (sdxl st)
         then addSDXLRefinerToGraph C st g0 (INPAINT K) = Inr g1 else g1 = g0" and
    s2: "addVAEToGraph C st g1 (SDXL_MODEL_LOADER K) = Inr g2" and
    s3: "handle_seed K st g2 = Inr g3" and
    s4: "addSDXLLoRAsToGraph C st g3 (INPAINT K) (SDXL_MODEL_LOADER K) = Inr g4" and
    s5: "addControlNetToLinearGraph C st g4 (INPAINT K) = Inr g5" and
    s6: "if shouldUseNSFWChecker (system st)
         then addNSFWCheckerToGraph C st g5 (CANVAS_OUTPUT K) = Inr g6 else g6 = g5" and
    s7: "if shouldUseWatermarker (system st)
         then addWatermarkerToGraph C st g6 (CANVAS_OUTPUT K) = Inr g else g = g6"
    unfolding build_steps_Inr by blast
  note a = stage_callsD [OF pre, rule_format]
  note b = stage_callsD [OF post, rule_format]
  have "P g1" using s1 init a(1) by (cases "shouldUseSDXLRefiner (sdxl st)") auto
  then have "P g2" using s2 a(2) by blast
  then have "Q g3" using s3 mid by blast
  then have "Q g4" using s4 b(3) by blast
  then have "Q g5" using s5 b(4) by blast
  then have "Q g6" using s6 b(5) by (cases "shouldUseNSFWChecker (system st)") auto
  then show "Q g" using s7 b(6) by (cases "shouldUseWatermarker (system st)") auto
qed

lemma build_keeps_node:
  assumes fr: "\<forall>f \<in> set (stage_calls K C st). leaves_node k f"
      and k: "k \<noteq> RANDOM_INT K" "k \<noteq> RANGE_OF_SIZE K"
      and run: "run_steps (build_steps K C st) g0 = (evs, Inr g)"
  shows "nodes g k = nodes g0 k"
proof (rule build_steps_phases [where P = "\<lambda>g. nodes g k = nodes g0 k" and Q = "\<lambda>g. nodes g k = nodes g0 k", OF _ _ _ _ run])
  show "\<forall>f \<in> set (stage_calls K C st). \<forall>g g'. nodes g k = nodes g0 k \<longrightarrow> f g = Inr g' \<longrightarrow> nodes g' k = nodes g0 k"
    using fr by (simp add: leaves_node_def)
  then show "\<forall>f \<in> set (stage_calls K C st). \<forall>g g'. nodes g k = nodes g0 k \<longrightarrow> f g = Inr g' \<longrightarrow> nodes g' k = nodes g0 k" .
  show "nodes g' k = nodes g0 k" if "nodes g k = nodes g0 k" "handle_seed K st g = Inr g'" for g g'
    using that k by (auto simp add: handle_seed_def Let_def split: if_splits option.splits)
  show "nodes g0 k = nodes g0 k" ..
qed

lemma base_ids: "ids_match_keys (base_graph K st mdl i m)"
  unfolding ids_match_keys_def base_graph_def
  by (auto dest!: base_nodes_SomeD simp add: base_entries_def Let_def invocation_id_def)

lemma handle_seed_returns:
  "nodes g (RANGE_OF_SIZE K) \<noteq> None \<Longrightarrow> \<exists>g'. handle_seed K st g = Inr g'"
  by (auto simp add: handle_seed_def Let_def)

lemma base_has_range: "nodes (base_graph K st mdl i m) (RANGE_OF_SIZE K) \<noteq> None"
proof -
  have "RANGE_OF_SIZE K \<in> dom (base_nodes K st mdl i m)"
    unfolding dom_base_nodes base_keys by simp
  then show ?thesis by (auto simp add: base_graph_def)
qed

lemma build_returns:
  assumes mdl: "model (generation st) = Some mdl"
      and fr: "\<forall>f \<in> set (stage_calls K C st). returns f \<and> leaves_node (RANGE_OF_SIZE K) f"
  shows "\<exists>g. buildCanvasSDXLOutpaintGraph K C st i m = (expected_events K st, Inr g)"
proof -
  let ?g0 = "base_graph K st mdl i m"
  note r = stage_callsD [OF fr]
  obtain g1 where s1: "if shouldUseSDXLRefiner (sdxl st)
         then addSDXLRefinerToGraph C st ?g0 (INPAINT K) = Inr g1 else g1 = ?g0"
    using r(1) by (cases "shouldUseSDXLRefiner (sdxl st)") (auto simp add: returns_def)
  have n1: "nodes g1 (RANGE_OF_SIZE K) \<noteq> None"
    using s1 r(1) base_has_range [of K st mdl i m]
    by (cases "shouldUseSDXLRefiner (sdxl st)") (auto simp add: leaves_node_def)
  obtain g2 where s2: "addVAEToGraph C st g1 (SDXL_MODEL_LOADER K) = Inr g2"
    using r(2) by (auto simp add: returns_def)
  have n2: "nodes g2 (RANGE_OF_SIZE K) \<noteq> None"
    using s2 r(2) n1 by (auto simp add: leaves_node_def)
  obtain g3 where s3: "handle_seed K st g2 = Inr g3"
    using handle_seed_returns [OF n2] by blast
  obtain g4 where s4: "addSDXLLoRAsToGraph C st g3 (INPAINT K) (SDXL_MODEL_LOADER K) = Inr g4"
    using r(3) by (auto simp add: returns_def)
  obtain g5 where s5: "addControlNetToLinearGraph C st g4 (INPAINT K) = Inr g5"
    using r(4) by (auto simp add: returns_def)
  obtain g6 where s6: "if shouldUseNSFWChecker (system st)
         then addNSFWCheckerToGraph C st g5 (CANVAS_OUTPUT K) = Inr g6 else g6 = g5"
    using r(5) by (cases "shouldUseNSFWChecker (system st)") (auto simp add: returns_def)
  obtain g where s7: "if shouldUseWatermarker (system st)
         then addWatermarkerToGraph C st g6 (CANVAS_OUTPUT K) = Inr g else g = g6"
    using r(6) by (cases "shouldUseWatermarker (system st)") (auto simp add: returns_def)
  have "run_steps (build_steps K C st) ?g0 = (expected_events K st, Inr g)"
    unfolding build_steps_Inr using s1 s2 s3 s4 s5 s6 s7 by blast
  then show ?thesis using mdl by (auto simp add: build_Inr)
qed

subsection \<open>Facts about the concrete inputs\<close>

lemma sample_distinct: "distinct_ids sample_constants"
  by (simp add: distinct_ids_def node_ids_def sample_constants_def)

lemma sample_returns: "\<forall>f \<in> set (stage_calls K sample_stages st). returns f"
  by (simp add: stage_calls_def sample_stages_def append_node_def returns_def)

lemma sample_leaves_node:
  "k \<noteq> ''nsfw_checker'' \<Longrightarrow> k \<noteq> ''invisible_watermark'' \<Longrightarrow>
     \<forall>f \<in> set (stage_calls K sample_stages st). leaves_node k f"
  by (auto simp add: stage_calls_def sample_stages_def append_node_def leaves_node_def)

lemma sample_keeps_edge: "\<forall>f \<in> set (stage_calls K sample_stages st). keeps_edge e f"
  by (auto simp add: stage_calls_def sample_stages_def append_node_def keeps_edge_def)

lemma sample_adds_no_type:
  "t \<noteq> ''img_nsfw'' \<Longrightarrow> t \<noteq> ''img_watermark'' \<Longrightarrow>
     \<forall>f \<in> set (stage_calls K sample_stages st). adds_no_type t f"
  by (auto simp add: stage_calls_def sample_stages_def append_node_def adds_no_type_def
        has_type_def split: if_splits)

lemma sample_build_returns:
  "model (generation st) = Some mdl \<Longrightarrow>
     \<exists>g. buildCanvasSDXLOutpaintGraph sample_constants sample_stages st i m
            = (expected_events sample_constants st, Inr g)"
  by (rule build_returns) (simp_all add: sample_returns sample_leaves_node sample_constants_def)

section \<open>The claims\<close>

lemma base_NOISE:
  "distinct_ids K \<Longrightarrow> base_nodes K st mdl i m (NOISE K) = Some
         [(''type'', Str ''noise''),
          (''id'', Str (NOISE K)),
          (''width'', Num (width (boundingBoxDimensions (canvas st)))),
          (''height'', Num (height (boundingBoxDimensions (canvas st)))),
          (''use_cpu'', Bool (use_cpu st)),
          (''is_intermediate'', Bool True)]"
  by (simp add: base_nodes_iff) (simp add: base_entries_def Let_def)

lemma use_cpu_eq: "use_cpu st = shouldUseCpuNoise (generation st)"
  by (simp add: use_cpu_def)

lemma base_graph_ignores_generic_size:
  "base_graph K (st\<lparr>generation := (generation st)\<lparr>width_gen := w, height_gen := h\<rparr>\<rparr>) mdl i m
     = base_graph K st mdl i m"
  by (simp add: base_graph_def base_nodes_def base_entries_def Let_def infillNode_def use_cpu_def)

text \<open>
  C9. When the call returns a graph, the width and height of its noise node are those of
  the bounding box of the canvas, and its \<open>use_cpu\<close> field is the CPU-noise flag; the
  generic width and height of the generation parameters do not enter the graph literal.
  The node-id constants are distinct and the stages leave the noise node as built.
\<close>

theorem noise_node_dimensions:
  assumes "distinct_ids K"
      and "\<forall>f \<in> set (stage_calls K C st). leaves_node (NOISE K) f"
      and "buildCanvasSDXLOutpaintGraph K C st i m = (evs, Inr g)"
  shows "\<exists>n. nodes g (NOISE K) = Some n \<and> has_type ''noise'' n \<and>
           map_of n ''width'' = Some (Num (width (boundingBoxDimensions (canvas st)))) \<and>
           map_of n ''height'' = Some (Num (height (boundingBoxDimensions (canvas st)))) \<and>
           map_of n ''use_cpu'' = Some (Bool (shouldUseCpuNoise (generation st))) \<and>
           (\<forall>w h mdl.
              base_graph K (st\<lparr>generation := (generation st)\<lparr>width_gen := w, height_gen := h\<rparr>\<rparr>)
                mdl i m = base_graph K st mdl i m)"
proof -
  from assms(3) obtain mdl where mdl: "model (generation st) = Some mdl" and
    run: "run_steps (build_steps K C st) (base_graph K st mdl i m) = (evs, Inr g)"
    unfolding build_Inr by blast
  have ne: "NOISE K \<noteq> RANDOM_INT K" "NOISE K \<noteq> RANGE_OF_SIZE K"
    using distinct_ids_both [OF assms(1)] by (simp_all add: node_ids_def)
  have "nodes g (NOISE K) = nodes (base_graph K st mdl i m) (NOISE K)"
    by (rule build_keeps_node [OF assms(2) ne run])
  then show ?thesis
    by (simp add: base_graph_ignores_generic_size)
       (simp add: base_graph_def base_NOISE [OF assms(1)] has_type_def use_cpu_eq)
qed

theorem noise_node_dimensions_witness:
  "\<exists>evs g n.
     buildCanvasSDXLOutpaintGraph sample_constants sample_stages sample_state
       sample_image None = (evs, Inr g) \<and>
     width_gen (generation sample_state) = Finite 512 \<and>
     nodes g ''noise'' = Some n \<and>
     map_of n ''width'' = Some (Num (Finite 1024)) \<and>
     map_of n ''height'' = Some (Num (Finite 768)) \<and>
     map_of n ''use_cpu'' = Some (Bool True)"
proof -
  obtain g where run:
    "buildCanvasSDXLOutpaintGraph sample_constants sample_stages sample_state
       sample_image None = (expected_events sample_constants sample_state, Inr g)"
    using sample_build_returns [of sample_state sample_model]
    by (auto simp add: sample_state_def)
  have fr: "\<forall>f \<in> set (stage_calls sample_constants sample_stages sample_state).
              leaves_node (NOISE sample_constants) f"
    by (rule sample_leaves_node) (simp_all add: sample_constants_def)
  show ?thesis
    using noise_node_dimensions [OF sample_distinct fr run] run
    by (auto simp add: sample_constants_def sample_state_def)
qed

lemma has_type_update_start [simp]:
  "has_type t (AList.update ''start'' v n) = has_type t n"
  by (simp add: has_type_def update_conv')





lemma base_RANGE:
  "distinct_ids K \<Longrightarrow> base_nodes K st mdl i m (RANGE_OF_SIZE K) = Some
         [(''type'', Str ''range_of_size''),
          (''id'', Str (RANGE_OF_SIZE K)),
          (''is_intermediate'', Bool True),
          (''size'', Num (iterations (generation st))),
          (''step'', Num (Finite 1))]"
  by (simp add: base_nodes_iff) (simp add: base_entries_def Let_def)

lemma leaves_nodeD: "leaves_node k f \<Longrightarrow> f g = Inr g' \<Longrightarrow> nodes g' k = nodes g k"
  by (simp add: leaves_node_def)

lemma keeps_edgeD: "keeps_edge e f \<Longrightarrow> f g = Inr g' \<Longrightarrow> e \<in> set (edges g) \<Longrightarrow> e \<in> set (edges g')"
  by (simp add: keeps_edge_def)

lemma adds_no_typeD:
  "adds_no_type t f \<Longrightarrow> f g = Inr g' \<Longrightarrow> no_node_of_type t g \<Longrightarrow> no_node_of_type t g'"
  unfolding adds_no_type_def no_node_of_type_def by blast

lemma handle_seed_random:
  "shouldRandomizeSeed (generation st) \<Longrightarrow>
     handle_seed K st g =
       Inr (g\<lparr>nodes := (nodes g)(RANDOM_INT K \<mapsto>
                           [(''id'', Str (RANDOM_INT K)), (''type'', Str ''rand_int'')]),
              edges := edges g @ [mk_edge (RANDOM_INT K) ''a'' (RANGE_OF_SIZE K) ''start'']\<rparr>)"
  by (simp add: handle_seed_def Let_def)

lemma handle_seed_fixed:
  "\<not> shouldRandomizeSeed (generation st) \<Longrightarrow> nodes g (RANGE_OF_SIZE K) = Some n \<Longrightarrow>
     handle_seed K st g =
       Inr (g\<lparr>nodes := (nodes g)(RANGE_OF_SIZE K \<mapsto>
                           AList.update ''start'' (Num (seed (generation st))) n)\<rparr>)"
  by (simp add: handle_seed_def)

lemma no_node_of_type_update:
  "no_node_of_type t g \<Longrightarrow> nodes g k = Some n \<Longrightarrow>
     no_node_of_type t (g\<lparr>nodes := (nodes g)(k \<mapsto> AList.update ''start'' v n)\<rparr>)"
  unfolding no_node_of_type_def by (auto simp add: has_type_def update_conv')

text \<open>
  C5. When the call returns a graph, its range node has \<open>size\<close> equal to the iteration
  count and \<open>step\<close> 1. With the randomize flag set the random-integer node is in the
  graph, an edge leads from its output \<open>a\<close> to the \<open>start\<close> port of the range node, and
  the range node has no \<open>start\<close> field; with the flag unset the graph has no node of type
  \<open>rand_int\<close> and \<open>start\<close> is the configured seed. The node-id constants are distinct;
  the stages leave the range node, the random-integer slot and that edge alone and add
  no random-integer node.
\<close>

theorem seed_strategy:
  assumes d: "distinct_ids K"
      and fr: "\<forall>f \<in> set (stage_calls K C st).
                 leaves_node (RANGE_OF_SIZE K) f \<and> leaves_node (RANDOM_INT K) f \<and>
                 keeps_edge (mk_edge (RANDOM_INT K) ''a'' (RANGE_OF_SIZE K) ''start'') f \<and>
                 adds_no_type ''rand_int'' f"
      and b: "buildCanvasSDXLOutpaintGraph K C st i m = (evs, Inr g)"
  shows "\<exists>n. nodes g (RANGE_OF_SIZE K) = Some n \<and> has_type ''range_of_size'' n \<and>
           map_of n ''size'' = Some (Num (iterations (generation st))) \<and>
           map_of n ''step'' = Some (Num (Finite 1)) \<and>
           (if shouldRandomizeSeed (generation st)
            then nodes g (RANDOM_INT K) =
                   Some [(''id'', Str (RANDOM_INT K)), (''type'', Str ''rand_int'')] \<and>
                 mk_edge (RANDOM_INT K) ''a'' (RANGE_OF_SIZE K) ''start'' \<in> set (edges g) \<and>
                 map_of n ''start'' = None
            else no_node_of_type ''rand_int'' g \<and>
                 map_of n ''start'' = Some (Num (seed (generation st))))"
proof -
  from b obtain mdl where
    run: "run_steps (build_steps K C st) (base_graph K st mdl i m) = (evs, Inr g)"
    unfolding build_Inr by blast
  define g0 where "g0 = base_graph K st mdl i m"
  define R where "R = RANGE_OF_SIZE K"
  define I where "I = RANDOM_INT K"
  define e where "e = mk_edge (RANDOM_INT K) ''a'' (RANGE_OF_SIZE K) ''start''"
  define rn where "rn = [(''type'', Str ''range_of_size''), (''id'', Str (RANGE_OF_SIZE K)),
              (''is_intermediate'', Bool True),
              (''size'', Num (iterations (generation st))), (''step'', Num (Finite 1))]"
  define rnd where "rnd = [(''id'', Str (RANDOM_INT K)), (''type'', Str ''rand_int'')]"
  define rs where "rs = AList.update ''start'' (Num (seed (generation st))) rn"
  note defs = R_def I_def e_def
  have ne: "I \<noteq> R" using d by (simp add: distinct_ids_def node_ids_def defs)
  have init: "nodes g0 R = Some rn" "no_node_of_type ''rand_int'' g0"
    by (auto simp add: g0_def R_def rn_def base_graph_def base_RANGE [OF d] no_node_of_type_def
          dest: base_no_rand_int)
  have frR: "\<And>f. f \<in> set (stage_calls K C st) \<Longrightarrow> leaves_node R f"
    and frI: "\<And>f. f \<in> set (stage_calls K C st) \<Longrightarrow> leaves_node I f"
    and frE: "\<And>f. f \<in> set (stage_calls K C st) \<Longrightarrow> keeps_edge e f"
    and frT: "\<And>f. f \<in> set (stage_calls K C st) \<Longrightarrow> adds_no_type ''rand_int'' f"
    using fr by (simp_all add: defs)
  show ?thesis
  proof (cases "shouldRandomizeSeed (generation st)")
    case True
    let ?P = "\<lambda>g. nodes g R = Some rn"
    let ?Q = "\<lambda>g. nodes g R = Some rn \<and> nodes g I = Some rnd \<and> e \<in> set (edges g)"
    have pre: "\<forall>f \<in> set (stage_calls K C st). \<forall>g g'. ?P g \<longrightarrow> f g = Inr g' \<longrightarrow> ?P g'"
    proof (intro ballI allI impI)
      fix f g g' assume f: "f \<in> set (stage_calls K C st)" and P: "?P g" and fg: "f g = Inr g'"
      show "?P g'" using leaves_nodeD [OF frR [OF f] fg] P by simp
    qed
    have post: "\<forall>f \<in> set (stage_calls K C st). \<forall>g g'. ?Q g \<longrightarrow> f g = Inr g' \<longrightarrow> ?Q g'"
    proof (intro ballI allI impI)
      fix f g g' assume f: "f \<in> set (stage_calls K C st)" and Q: "?Q g" and fg: "f g = Inr g'"
      show "?Q g'"
        using leaves_nodeD [OF frR [OF f] fg] leaves_nodeD [OF frI [OF f] fg]
          keeps_edgeD [OF frE [OF f] fg] Q by simp
    qed
    have mid: "?Q g'" if "?P g" "handle_seed K st g = Inr g'" for g g'
      using that ne unfolding handle_seed_random [OF True]
      by (auto simp add: defs rnd_def)
    from build_steps_phases [where P = ?P and Q = ?Q, OF pre mid post init(1) run [folded g0_def]]
    have "?Q g" .
    then show ?thesis using True
      by (simp add: defs rn_def rnd_def has_type_def)
  next
    case False
    let ?P = "\<lambda>g. nodes g R = Some rn \<and> no_node_of_type ''rand_int'' g"
    let ?Q = "\<lambda>g. nodes g R = Some rs \<and> no_node_of_type ''rand_int'' g"
    have pre: "\<forall>f \<in> set (stage_calls K C st). \<forall>g g'. ?P g \<longrightarrow> f g = Inr g' \<longrightarrow> ?P g'"
    proof (intro ballI allI impI)
      fix f g g' assume f: "f \<in> set (stage_calls K C st)" and P: "?P g" and fg: "f g = Inr g'"
      show "?P g'"
        using leaves_nodeD [OF frR [OF f] fg] adds_no_typeD [OF frT [OF f] fg] P by simp
    qed
    have post: "\<forall>f \<in> set (stage_calls K C st). \<forall>g g'. ?Q g \<longrightarrow> f g = Inr g' \<longrightarrow> ?Q g'"
    proof (intro ballI allI impI)
      fix f g g' assume f: "f \<in> set (stage_calls K C st)" and Q: "?Q g" and fg: "f g = Inr g'"
      show "?Q g'"
        using leaves_nodeD [OF frR [OF f] fg] adds_no_typeD [OF frT [OF f] fg] Q by simp
    qed
    have mid: "?Q g'" if "?P g" "handle_seed K st g = Inr g'" for g g'
    proof -
      from that have n: "nodes g (RANGE_OF_SIZE K) = Some rn" by (simp add: R_def)
      from that(2) have "g' = g\<lparr>nodes := (nodes g)(RANGE_OF_SIZE K \<mapsto> rs)\<rparr>"
        unfolding handle_seed_fixed [OF False n] rs_def by simp
      then show ?thesis
        using no_node_of_type_update [OF conjunct2 [OF that(1)] n] by (simp add: R_def rs_def)
    qed
    from build_steps_phases [where P = ?P and Q = ?Q, OF pre mid post conjI [OF init] run [folded g0_def]]
    have "?Q g" .
    then show ?thesis using False
      by (simp add: defs rn_def rs_def has_type_def)
  qed
qed

theorem seed_strategy_witness:
  "\<exists>evs g n.
     buildCanvasSDXLOutpaintGraph sample_constants sample_stages sample_state
       sample_image None = (evs, Inr g) \<and>
     nodes g ''range_of_size'' = Some n \<and>
     map_of n ''size'' = Some (Num (Finite 4)) \<and> map_of n ''step'' = Some (Num (Finite 1)) \<and>
     map_of n ''start'' = Some (Num (Finite 42)) \<and>
     no_node_of_type ''rand_int'' g"
proof -
  obtain g where run:
    "buildCanvasSDXLOutpaintGraph sample_constants sample_stages sample_state
       sample_image None = (expected_events sample_constants sample_state, Inr g)"
    using sample_build_returns [of sample_state sample_model]
    by (auto simp add: sample_state_def)
  have fr: "\<forall>f \<in> set (stage_calls sample_constants sample_stages sample_state).
              leaves_node (RANGE_OF_SIZE sample_constants) f \<and>
              leaves_node (RANDOM_INT sample_constants) f \<and>
              keeps_edge (mk_edge (RANDOM_INT sample_constants) ''a''
                            (RANGE_OF_SIZE sample_constants) ''start'') f \<and>
              adds_no_type ''rand_int'' f"
    using sample_leaves_node [of "RANGE_OF_SIZE sample_constants" sample_constants sample_state]
      sample_leaves_node [of "RANDOM_INT sample_constants" sample_constants sample_state]
      sample_keeps_edge [of sample_constants sample_state]
      sample_adds_no_type [of "''rand_int''" sample_constants sample_state]
    by (simp add: sample_constants_def)
  show ?thesis
    using seed_strategy [OF sample_distinct fr run] run
    by (auto simp add: sample_constants_def sample_state_def)
qed

lemma run_steps_events:
  assumes "list_all2 (\<lambda>f ev. \<forall>g. fst (f g) = ev) fs es"
      and "run_steps fs g = (evs, r)"
  shows "prefix evs (concat es) \<and> (\<forall>g'. r = Inr g' \<longrightarrow> evs = concat es)"
  using assms
proof (induction fs es arbitrary: g evs r rule: list_all2_induct)
  case Nil
  then show ?case by simp
next
  case (Cons f fs ev es)
  obtain e1 r1 where f: "f g = (e1, r1)" by (cases "f g")
  with Cons.hyps(1) have e1: "e1 = ev" by (metis fst_conv)
  show ?case
  proof (cases r1)
    case (Inl e)
    with f Cons.prems show ?thesis by (auto simp add: e1)
  next
    case (Inr g1)
    obtain e2 r2 where rest: "run_steps fs g1 = (e2, r2)" by (cases "run_steps fs g1")
    from Cons.IH [OF rest] f Inr rest Cons.prems show ?thesis
      by (auto simp add: e1)
  qed
qed

lemma build_steps_events:
  assumes "run_steps (build_steps K C st) g0 = (evs, r)"
  shows "prefix evs (expected_events K st) \<and> (\<forall>g. r = Inr g \<longrightarrow> evs = expected_events K st)"
proof -
  let ?es = "[if shouldUseSDXLRefiner (sdxl st) then [Invoked SDXLRefiner [INPAINT K]] else [],
              [Invoked VAE [SDXL_MODEL_LOADER K]], [],
              [Invoked SDXLLoRAs [INPAINT K, SDXL_MODEL_LOADER K]],
              [Invoked ControlNet [INPAINT K]],
              if shouldUseNSFWChecker (system st) then [Invoked NSFWChecker [CANVAS_OUTPUT K]] else [],
              if shouldUseWatermarker (system st) then [Invoked Watermarker [CANVAS_OUTPUT K]] else []]"
  have "list_all2 (\<lambda>f ev. \<forall>g. fst (f g) = ev) (build_steps K C st) ?es"
    by (simp add: build_steps_def invoke_def silent_def)
  from run_steps_events [OF this assms] show ?thesis
    by (simp add: expected_events_def)
qed

lemma staged_run_append:
  "staged_run ss (evs0 @ evs) g =
     (case staged_run ss evs g of (evs', r) \<Rightarrow> (evs0 @ evs', r))"
proof (induction ss arbitrary: evs g)
  case Nil
  show ?case by simp
next
  case (Cons s ss)
  obtain enabled calls f where s: "s = (enabled, calls, f)" by (cases s)
  show ?case
    by (simp add: s Cons.IH [symmetric] split: sum.split)
qed

lemma run_steps_staged:
  assumes "list_all2 (\<lambda>f s. \<forall>g. f g = (if fst s then (fst (snd s), snd (snd s) g)
                                         else ([], Inr g))) fs ss"
  shows "run_steps fs g = staged_run ss [] g"
  using assms
proof (induction fs ss arbitrary: g rule: list_all2_induct)
  case Nil
  show ?case by simp
next
  case (Cons f fs s ss)
  obtain enabled calls h where s: "s = (enabled, calls, h)" by (cases s)
  from Cons.hyps(1) have f: "f g = (if enabled then (calls, h g) else ([], Inr g))"
    by (simp add: s)
  show ?case
  proof (cases enabled)
    case True
    show ?thesis
      using staged_run_append [of ss calls "[]"]
      by (simp add: s f True Cons.IH split: sum.split prod.split)
  next
    case False
    show ?thesis
      by (simp add: s f False Cons.IH split: prod.split)
  qed
qed

lemma build_steps_staged:
  "run_steps (build_steps K C st) g = staged_run (ordered_stages K C st) [] g"
  by (rule run_steps_staged) (simp add: build_steps_def ordered_stages_def invoke_def silent_def)

text \<open>
  C7. A run with a model is the run of the pipeline of the specification on the graph
  literal: refiner (if its flag is set), VAE, the seed handling, LoRA, ControlNet, NSFW
  checker (if its flag is set), watermarker (if its flag is set), each applied to the
  graph the stages before it have left, and the first exception ends the run. The stage
  calls made are an initial part of the fixed sequence; a run that returns a graph has
  made all of them, in this order, and the returned graph is the result of the chain of
  these applications, the watermarker's being the last when its flag is set.
\<close>

theorem stage_order:
  assumes "buildCanvasSDXLOutpaintGraph K C st i m = (evs, r)"
      and "model (generation st) = Some mdl"
  shows "(evs, r) = staged_run (ordered_stages K C st) [] (base_graph K st mdl i m) \<and>
         prefix evs (expected_events K st) \<and>
         (\<forall>g. r = Inr g \<longrightarrow>
            evs = expected_events K st \<and>
            (\<exists>g1 g2 g3 g4 g5 g6.
               (if shouldUseSDXLRefiner (sdxl st)
                then addSDXLRefinerToGraph C st (base_graph K st mdl i m) (INPAINT K) = Inr g1
                else g1 = base_graph K st mdl i m) \<and>
               addVAEToGraph C st g1 (SDXL_MODEL_LOADER K) = Inr g2 \<and>
               handle_seed K st g2 = Inr g3 \<and>
               addSDXLLoRAsToGraph C st g3 (INPAINT K) (SDXL_MODEL_LOADER K) = Inr g4 \<and>
               addControlNetToLinearGraph C st g4 (INPAINT K) = Inr g5 \<and>
               (if shouldUseNSFWChecker (system st)
                then addNSFWCheckerToGraph C st g5 (CANVAS_OUTPUT K) = Inr g6 else g6 = g5) \<and>
               (if shouldUseWatermarker (system st)
                then addWatermarkerToGraph C st g6 (CANVAS_OUTPUT K) = Inr g else g = g6)))"
proof -
  from assms have
    run: "run_steps (build_steps K C st) (base_graph K st mdl i m) = (evs, r)"
    by (simp add: buildCanvasSDXLOutpaintGraph_def)
  have 1: "(evs, r) = staged_run (ordered_stages K C st) [] (base_graph K st mdl i m)"
    using run by (simp add: build_steps_staged)
  have 2: "\<exists>g1 g2 g3 g4 g5 g6.
               (if shouldUseSDXLRefiner (sdxl st)
                then addSDXLRefinerToGraph C st (base_graph K st mdl i m) (INPAINT K) = Inr g1
                else g1 = base_graph K st mdl i m) \<and>
               addVAEToGraph C st g1 (SDXL_MODEL_LOADER K) = Inr g2 \<and>
               handle_seed K st g2 = Inr g3 \<and>
               addSDXLLoRAsToGraph C st g3 (INPAINT K) (SDXL_MODEL_LOADER K) = Inr g4 \<and>
               addControlNetToLinearGraph C st g4 (INPAINT K) = Inr g5 \<and>
               (if shouldUseNSFWChecker (system st)
                then addNSFWCheckerToGraph C st g5 (CANVAS_OUTPUT K) = Inr g6 else g6 = g5) \<and>
               (if shouldUseWatermarker (system st)
                then addWatermarkerToGraph C st g6 (CANVAS_OUTPUT K) = Inr g else g = g6)"
    if "r = Inr g" for g
  proof -
    from run that have "run_steps (build_steps K C st) (base_graph K st mdl i m) = (evs, Inr g)"
      by simp
    then show ?thesis unfolding build_steps_Inr by blast
  qed
  from 1 2 build_steps_events [OF run] show ?thesis by blast
qed

theorem stage_order_witness:
  "\<exists>g. buildCanvasSDXLOutpaintGraph sample_constants sample_stages sample_state_refined
          sample_image None =
         ([Invoked SDXLRefiner [''inpaint''],
           Invoked VAE [''sdxl_model_loader''],
           Invoked SDXLLoRAs [''inpaint'', ''sdxl_model_loader''],
           Invoked ControlNet [''inpaint''],
           Invoked NSFWChecker [''canvas_output''],
           Invoked Watermarker [''canvas_output'']], Inr g) \<and>
        ([Invoked SDXLRefiner [''inpaint''],
           Invoked VAE [''sdxl_model_loader''],
           Invoked SDXLLoRAs [''inpaint'', ''sdxl_model_loader''],
           Invoked ControlNet [''inpaint''],
           Invoked NSFWChecker [''canvas_output''],
           Invoked Watermarker [''canvas_output'']], Inr g) =
          staged_run (ordered_stages sample_constants sample_stages sample_state_refined) []
            (base_graph sample_constants sample_state_refined sample_model sample_image None) \<and>
        (\<exists>g6. addWatermarkerToGraph sample_stages sample_state_refined g6 ''canvas_output'' = Inr g)"
proof -
  obtain g where run:
    "buildCanvasSDXLOutpaintGraph sample_constants sample_stages sample_state_refined
       sample_image None = (expected_events sample_constants sample_state_refined, Inr g)"
    using sample_build_returns [of sample_state_refined sample_model]
    by (auto simp add: sample_state_refined_def sample_state_def)
  have mdl: "model (generation sample_state_refined) = Some sample_model"
    by (simp add: sample_state_refined_def sample_state_def)
  have wm: "shouldUseWatermarker (system sample_state_refined)"
    by (simp add: sample_state_refined_def sample_state_def)
  have ev: "expected_events sample_constants sample_state_refined =
         [Invoked SDXLRefiner [''inpaint''],
           Invoked VAE [''sdxl_model_loader''],
           Invoked SDXLLoRAs [''inpaint'', ''sdxl_model_loader''],
           Invoked ControlNet [''inpaint''],
           Invoked NSFWChecker [''canvas_output''],
           Invoked Watermarker [''canvas_output'']]"
    by (simp add: expected_events_def sample_constants_def sample_state_refined_def
          sample_state_def)
  have co: "CANVAS_OUTPUT sample_constants = ''canvas_output''"
    by (simp add: sample_constants_def)
  from stage_order [OF run mdl] wm have
    "(expected_events sample_constants sample_state_refined, Inr g) =
       staged_run (ordered_stages sample_constants sample_stages sample_state_refined) []
         (base_graph sample_constants sample_state_refined sample_model sample_image None)"
    "\<exists>g6. addWatermarkerToGraph sample_stages sample_state_refined g6
            (CANVAS_OUTPUT sample_constants) = Inr g"
    by auto
  with run show ?thesis unfolding ev co by blast
qed

text \<open>
  C3. Without a model the call logs and throws \<open>No model found in state\<close>: no stage is
  called and no graph is returned. With a model, and stages that return and leave the
  range node in place, the call returns a graph.
\<close>

theorem missing_model_fails:
  "(model (generation st) = None \<longrightarrow>
      buildCanvasSDXLOutpaintGraph K C st i m =
        ([LogError ''No model found in state''], Inl (Error ''No model found in state''))) \<and>
   (model (generation st) \<noteq> None \<longrightarrow>
      (\<forall>f \<in> set (stage_calls K C st). returns f \<and> leaves_node (RANGE_OF_SIZE K) f) \<longrightarrow>
      (\<exists>g. buildCanvasSDXLOutpaintGraph K C st i m = (expected_events K st, Inr g)))"
  using build_returns [of st _ K C i m]
  by (auto simp add: buildCanvasSDXLOutpaintGraph_def)

theorem missing_model_fails_witness:
  "buildCanvasSDXLOutpaintGraph sample_constants sample_stages sample_state_no_model
     sample_image None =
     ([LogError ''No model found in state''], Inl (Error ''No model found in state'')) \<and>
   (\<exists>g. buildCanvasSDXLOutpaintGraph sample_constants sample_stages sample_state
          sample_image None = (expected_events sample_constants sample_state, Inr g))"
proof -
  have fr: "\<forall>f \<in> set (stage_calls sample_constants sample_stages sample_state).
              returns f \<and> leaves_node (RANGE_OF_SIZE sample_constants) f"
    using sample_returns [of sample_constants sample_state]
      sample_leaves_node [of "RANGE_OF_SIZE sample_constants" sample_constants sample_state]
    by (simp add: sample_constants_def)
  have a: "model (generation sample_state_no_model) = None"
    by (simp add: sample_state_no_model_def)
  have b: "model (generation sample_state) \<noteq> None"
    by (simp add: sample_state_def)
  show ?thesis
    using missing_model_fails [of sample_state_no_model sample_constants sample_stages
            sample_image None]
      missing_model_fails [of sample_state sample_constants sample_stages sample_image None]
      a b fr
    by blast
qed

lemma run_steps_Inl:
  "run_steps fs g = (evs, Inl e) \<Longrightarrow> \<exists>f \<in> set fs. \<exists>g' evs'. f g' = (evs', Inl e)"
proof (induction fs arbitrary: g evs)
  case Nil
  then show ?case by simp
next
  case (Cons f fs)
  obtain e1 r1 where f: "f g = (e1, r1)" by (cases "f g")
  show ?case
  proof (cases r1)
    case (Inl e')
    with f Cons.prems show ?thesis by auto
  next
    case (Inr g1)
    obtain e2 r2 where rest: "run_steps fs g1 = (e2, r2)" by (cases "run_steps fs g1")
    with f Inr Cons.prems have "run_steps fs g1 = (e2, Inl e)" by simp
    from Cons.IH [OF this] show ?thesis by auto
  qed
qed

lemma build_steps_Inl:
  assumes "run_steps (build_steps K C st) g0 = (evs, Inl e)"
  shows "(\<exists>g. handle_seed K st g = Inl e) \<or> (\<exists>f \<in> set (stage_calls K C st). \<exists>g. f g = Inl e)"
  using run_steps_Inl [OF assms] unfolding build_steps_def stage_calls_def
  by (auto simp add: invoke_def silent_def split: if_splits)

lemma sample_flags:
  "model (generation sample_state) = Some sample_model"
  "\<not> shouldUseSDXLRefiner (sdxl sample_state)"
  "\<not> shouldRandomizeSeed (generation sample_state)"
  "shouldUseNSFWChecker (system sample_state)"
  "shouldUseWatermarker (system sample_state)"
  "seed (generation sample_state) = Finite 42"
  "iterations (generation sample_state) = Finite 4"
  by (simp_all add: sample_state_def)

lemma sample_refined_flags:
  "model (generation sample_state_refined) = Some sample_model"
  "shouldUseSDXLRefiner (sdxl sample_state_refined)"
  "shouldRandomizeSeed (generation sample_state_refined)"
  "shouldUseNSFWChecker (system sample_state_refined)"
  "shouldUseWatermarker (system sample_state_refined)"
  by (simp_all add: sample_state_refined_def sample_state_def)

lemma dangling_run_eval:
  "\<exists>g. dangling_run = (expected_events sample_constants sample_state, Inr g) \<and>
       mk_edge ''missing'' ''image'' ''canvas_output'' ''image'' \<in> set (edges g) \<and>
       ''missing'' \<notin> dom (nodes g)"
proof -
  let ?K = sample_constants and ?st = sample_state
  let ?base = "base_graph ?K ?st sample_model sample_image None"
  obtain rn where rn: "nodes ?base (RANGE_OF_SIZE ?K) = Some rn"
    using base_has_range [of ?K ?st sample_model sample_image None] by blast
  let ?seeded = "?base\<lparr>nodes := (nodes ?base)(RANGE_OF_SIZE ?K \<mapsto>
                 AList.update ''start'' (Num (seed (generation ?st))) rn)\<rparr>"
  let ?checked = "?seeded\<lparr>nodes := (nodes ?seeded)(''nsfw_checker'' \<mapsto>
                 [(''id'', Str ''nsfw_checker''), (''type'', Str ''img_nsfw'')]),
               edges := edges ?seeded @ [mk_edge (CANVAS_OUTPUT ?K) ''image'' ''nsfw_checker'' ''image'']\<rparr>"
  let ?final = "?checked\<lparr>edges := edges ?checked @ [mk_edge ''missing'' ''image'' (CANVAS_OUTPUT ?K) ''image'']\<rparr>"
  have hs: "handle_seed ?K ?st ?base = Inr ?seeded"
    by (rule handle_seed_fixed [OF sample_flags(3) rn])
  have "run_steps (build_steps ?K dangling_stages ?st) ?base = (expected_events ?K ?st, Inr ?final)"
    unfolding build_steps_Inr
    by (rule exI [of _ ?base], rule exI [of _ ?base], rule exI [of _ ?seeded], rule exI [of _ ?seeded],
        rule exI [of _ ?seeded], rule exI [of _ ?checked])
       (simp add: sample_flags hs dangling_stages_def sample_stages_def append_node_def)
  then have run: "dangling_run = (expected_events ?K ?st, Inr ?final)"
    by (simp add: dangling_run_def build_Inr sample_flags)
  have dom: "''missing'' \<notin> dom (nodes ?final)"
    by (simp add: base_graph_def dom_base_nodes base_keys sample_constants_def)
  show ?thesis
    using run dom by (intro exI [of _ ?final]) (simp add: sample_constants_def)
qed

text \<open>
  The builder runs no validator: with a watermarker that adds an edge from a missing
  node, the call returns a graph that the validator of the specification rejects.
\<close>

theorem validator_absent_counterexample:
  "\<not> isl (snd dangling_run) \<and> \<not> validate sample_constants (projr (snd dangling_run))"
proof -
  obtain g where g: "dangling_run = (expected_events sample_constants sample_state, Inr g)"
    "mk_edge ''missing'' ''image'' ''canvas_output'' ''image'' \<in> set (edges g)"
    "''missing'' \<notin> dom (nodes g)"
    using dangling_run_eval by blast
  have "\<not> endpoints_resolvable g"
    unfolding endpoints_resolvable_def using g(2,3) by (force simp add: mk_edge_def)
  then show ?thesis by (simp add: g(1) validate_def)
qed

text \<open>
  C1 (amended). The call returns the graph exactly as the last stage call returned it
  (watermarker, else NSFW checker, else ControlNet), with no structural validation in
  between; a call that fails does so with the missing-model error, with the
  \<open>TypeError\<close> of the seed assignment or with the exception of a stage.
\<close>

theorem returns_unvalidated:
  "(buildCanvasSDXLOutpaintGraph K C st i m = (evs, Inr g) \<longrightarrow>
      (\<exists>g0. last_stage_call K C st g0 = Inr g)) \<and>
   (buildCanvasSDXLOutpaintGraph K C st i m = (evs, Inl e) \<longrightarrow>
      (model (generation st) = None \<and> e = Error ''No model found in state'') \<or>
      (\<exists>g0. handle_seed K st g0 = Inl e) \<or>
      (\<exists>f \<in> set (stage_calls K C st). \<exists>g0. f g0 = Inl e))"
proof (intro conjI impI)
  assume "buildCanvasSDXLOutpaintGraph K C st i m = (evs, Inr g)"
  then obtain mdl where "run_steps (build_steps K C st) (base_graph K st mdl i m) = (evs, Inr g)"
    unfolding build_Inr by blast
  then show "\<exists>g0. last_stage_call K C st g0 = Inr g"
    unfolding build_steps_Inr last_stage_call_def by (auto split: if_splits)
next
  assume a: "buildCanvasSDXLOutpaintGraph K C st i m = (evs, Inl e)"
  show "(model (generation st) = None \<and> e = Error ''No model found in state'') \<or>
      (\<exists>g0. handle_seed K st g0 = Inl e) \<or>
      (\<exists>f \<in> set (stage_calls K C st). \<exists>g0. f g0 = Inl e)"
  proof (cases "model (generation st)")
    case None
    with a show ?thesis by (simp add: buildCanvasSDXLOutpaintGraph_def)
  next
    case (Some mdl)
    with a have "run_steps (build_steps K C st) (base_graph K st mdl i m) = (evs, Inl e)"
      by (simp add: buildCanvasSDXLOutpaintGraph_def)
    from build_steps_Inl [OF this] show ?thesis by blast
  qed
qed

theorem returns_unvalidated_witness:
  "\<exists>g g0. dangling_run = (expected_events sample_constants sample_state, Inr g) \<and>
          addWatermarkerToGraph dangling_stages sample_state g0 ''canvas_output'' = Inr g \<and>
          \<not> endpoints_resolvable g"
proof -
  obtain g where g: "dangling_run = (expected_events sample_constants sample_state, Inr g)"
    "mk_edge ''missing'' ''image'' ''canvas_output'' ''image'' \<in> set (edges g)"
    "''missing'' \<notin> dom (nodes g)"
    using dangling_run_eval by blast
  have bad: "\<not> endpoints_resolvable g"
    unfolding endpoints_resolvable_def using g(2,3) by (force simp add: mk_edge_def)
  from returns_unvalidated [of sample_constants dangling_stages sample_state sample_image None
      "expected_events sample_constants sample_state" g] g(1)
  obtain g0 where "last_stage_call sample_constants dangling_stages sample_state g0 = Inr g"
    unfolding dangling_run_def by blast
  then have "addWatermarkerToGraph dangling_stages sample_state g0 ''canvas_output'' = Inr g"
    by (simp add: last_stage_call_def sample_flags sample_constants_def)
  with g(1) bad show ?thesis by blast
qed

lemma double_write_run_eval:
  "\<exists>g. double_write_run = (expected_events sample_constants sample_state_refined, Inr g) \<and>
       edges g = base_edges sample_constants @
         [mk_edge ''sdxl_model_loader'' ''vae'' ''range_of_size'' ''start'',
          mk_edge ''rand_int'' ''a'' ''range_of_size'' ''start'',
          mk_edge ''canvas_output'' ''image'' ''nsfw_checker'' ''image'',
          mk_edge ''canvas_output'' ''image'' ''invisible_watermark'' ''image'']"
proof -
  let ?K = sample_constants and ?st = sample_state_refined
  let ?base = "base_graph ?K ?st sample_model sample_image None"
  let ?vae = "?base\<lparr>edges := edges ?base @
                [mk_edge (SDXL_MODEL_LOADER ?K) ''vae'' ''range_of_size'' ''start'']\<rparr>"
  let ?seeded = "?vae\<lparr>nodes := (nodes ?vae)(RANDOM_INT ?K \<mapsto>
                           [(''id'', Str (RANDOM_INT ?K)), (''type'', Str ''rand_int'')]),
              edges := edges ?vae @ [mk_edge (RANDOM_INT ?K) ''a'' (RANGE_OF_SIZE ?K) ''start'']\<rparr>"
  let ?checked = "?seeded\<lparr>nodes := (nodes ?seeded)(''nsfw_checker'' \<mapsto>
                 [(''id'', Str ''nsfw_checker''), (''type'', Str ''img_nsfw'')]),
               edges := edges ?seeded @ [mk_edge (CANVAS_OUTPUT ?K) ''image'' ''nsfw_checker'' ''image'']\<rparr>"
  let ?final = "?checked\<lparr>nodes := (nodes ?checked)(''invisible_watermark'' \<mapsto>
                 [(''id'', Str ''invisible_watermark''), (''type'', Str ''img_watermark'')]),
               edges := edges ?checked @
                 [mk_edge (CANVAS_OUTPUT ?K) ''image'' ''invisible_watermark'' ''image'']\<rparr>"
  have hs: "handle_seed ?K ?st ?vae = Inr ?seeded"
    by (rule handle_seed_random [OF sample_refined_flags(3)])
  have "run_steps (build_steps ?K double_write_stages ?st) ?base
          = (expected_events ?K ?st, Inr ?final)"
    unfolding build_steps_Inr
    by (rule exI [of _ ?base], rule exI [of _ ?vae], rule exI [of _ ?seeded],
        rule exI [of _ ?seeded], rule exI [of _ ?seeded], rule exI [of _ ?checked])
       (simp add: sample_refined_flags hs double_write_stages_def sample_stages_def append_node_def)
  then have run: "double_write_run = (expected_events ?K ?st, Inr ?final)"
    by (simp add: double_write_run_def build_Inr sample_refined_flags)
  show ?thesis
    using run by (intro exI [of _ ?final]) (simp add: sample_constants_def base_graph_def)
qed

text \<open>
  Edges are pushed without a check: when the VAE stage has written the \<open>start\<close> port of
  the range node, the seed handling adds a second edge to that port and the call
  returns the graph with both.
\<close>

theorem single_writer_counterexample:
  "\<not> isl (snd double_write_run) \<and> \<not> single_writer (projr (snd double_write_run))"
proof -
  obtain g where g: "double_write_run = (expected_events sample_constants sample_state_refined, Inr g)"
    "edges g = base_edges sample_constants @
         [mk_edge ''sdxl_model_loader'' ''vae'' ''range_of_size'' ''start'',
          mk_edge ''rand_int'' ''a'' ''range_of_size'' ''start'',
          mk_edge ''canvas_output'' ''image'' ''nsfw_checker'' ''image'',
          mk_edge ''canvas_output'' ''image'' ''invisible_watermark'' ''image'']"
    using double_write_run_eval by blast
  have "\<not> single_writer g"
    by (simp add: single_writer_def g(2) mk_edge_def)
  then show ?thesis by (simp add: g(1))
qed

lemma base_single_writer: "distinct_ids K \<Longrightarrow> distinct (map destination (base_edges K))"
  by (drule distinct_ids_both) (simp add: base_edges_def mk_edge_def node_ids_def)

lemma base_no_start_writer:
  "\<lparr>node_id = RANGE_OF_SIZE K, field = ''start''\<rparr> \<notin> set (map destination (base_edges K))"
  by (simp add: base_edges_def mk_edge_def)

text \<open>
  C2 (amended). With distinct node-id constants the graph literal has at most one edge
  per destination port, and so has the graph after the seed handling applied to it.
  The seed handling appends its edge to whatever edges the graph has: a port that is
  already written gets a second edge.
\<close>

theorem single_writer_direct:
  assumes "distinct_ids K"
  shows "single_writer (base_graph K st mdl i m) \<and>
         (\<forall>g'. handle_seed K st (base_graph K st mdl i m) = Inr g' \<longrightarrow> single_writer g') \<and>
         (\<forall>g. shouldRandomizeSeed (generation st) \<longrightarrow>
            (\<exists>g'. handle_seed K st g = Inr g' \<and>
               edges g' = edges g @ [mk_edge (RANDOM_INT K) ''a'' (RANGE_OF_SIZE K) ''start'']))"
proof (intro conjI allI impI)
  show b: "single_writer (base_graph K st mdl i m)"
    using base_single_writer [OF assms] by (simp add: single_writer_def base_graph_def)
  show "single_writer g'" if "handle_seed K st (base_graph K st mdl i m) = Inr g'" for g'
    using that base_single_writer [OF assms] base_no_start_writer [of K]
    by (auto simp add: handle_seed_def Let_def single_writer_def base_graph_def mk_edge_def
          split: if_splits option.splits)
  show "\<exists>g'. handle_seed K st g = Inr g' \<and>
          edges g' = edges g @ [mk_edge (RANDOM_INT K) ''a'' (RANGE_OF_SIZE K) ''start'']"
    if "shouldRandomizeSeed (generation st)" for g
    using that by (simp add: handle_seed_random)
qed

lemma sample_ids:
  "RANDOM_INT sample_constants = ''rand_int''"
  "RANGE_OF_SIZE sample_constants = ''range_of_size''"
  by (simp_all add: sample_constants_def)

theorem single_writer_direct_witness:
  "single_writer (base_graph sample_constants sample_state_refined sample_model sample_image None) \<and>
   (\<exists>g'. handle_seed sample_constants sample_state_refined
            (base_graph sample_constants sample_state_refined sample_model sample_image None)
          = Inr g' \<and> single_writer g' \<and>
          edges g' = base_edges sample_constants @
            [mk_edge ''rand_int'' ''a'' ''range_of_size'' ''start''])"
proof -
  let ?b = "base_graph sample_constants sample_state_refined sample_model sample_image None"
  note t = single_writer_direct [OF sample_distinct, of sample_state_refined sample_model
             sample_image None]
  from t sample_refined_flags(3) obtain g' where
    g': "handle_seed sample_constants sample_state_refined ?b = Inr g'"
        "edges g' = edges ?b @
           [mk_edge (RANDOM_INT sample_constants) ''a'' (RANGE_OF_SIZE sample_constants) ''start'']"
    by blast
  from t g'(1) have "single_writer g'" by blast
  with t g' show ?thesis
    by (intro conjI exI [of _ g']) (simp_all add: base_graph_def sample_ids)
qed

text \<open>
  C10. Two states that differ only in \<open>shouldUseNoiseSettings\<close> give the same graph
  literal and, with stage calls that do not tell them apart, the same run;
  \<open>use_cpu\<close> is \<open>shouldUseCpuNoise\<close> whatever the override.
\<close>

theorem noise_override_unobservable:
  assumes "stage_calls K C (st\<lparr>generation := (generation st)\<lparr>shouldUseNoiseSettings := b\<rparr>\<rparr>)
             = stage_calls K C st"
  shows "buildCanvasSDXLOutpaintGraph K C
           (st\<lparr>generation := (generation st)\<lparr>shouldUseNoiseSettings := b\<rparr>\<rparr>) i m
           = buildCanvasSDXLOutpaintGraph K C st i m \<and>
         use_cpu (st\<lparr>generation := (generation st)\<lparr>shouldUseNoiseSettings := b\<rparr>\<rparr>)
           = shouldUseCpuNoise (generation st) \<and>
         (\<forall>mdl. base_graph K (st\<lparr>generation := (generation st)\<lparr>shouldUseNoiseSettings := b\<rparr>\<rparr>)
                  mdl i m = base_graph K st mdl i m)"
proof -
  let ?st = "st\<lparr>generation := (generation st)\<lparr>shouldUseNoiseSettings := b\<rparr>\<rparr>"
  have base: "base_graph K ?st mdl i m = base_graph K st mdl i m" for mdl
    by (simp add: base_graph_def base_nodes_def base_entries_def Let_def infillNode_def use_cpu_def)
  have seed: "handle_seed K ?st = handle_seed K st"
    by (rule ext) (simp add: handle_seed_def split: option.split)
  have steps: "build_steps K C ?st = build_steps K C st"
    using assms unfolding build_steps_def stage_calls_def seed
    by (simp add: fun_eq_iff)
  show ?thesis
    by (simp add: buildCanvasSDXLOutpaintGraph_def steps base use_cpu_def split: option.split)
qed

theorem noise_override_unobservable_witness:
  "buildCanvasSDXLOutpaintGraph sample_constants sample_stages
     (sample_state\<lparr>generation := (generation sample_state)\<lparr>shouldUseNoiseSettings := True\<rparr>\<rparr>)
     sample_image None
   = buildCanvasSDXLOutpaintGraph sample_constants sample_stages sample_state sample_image None \<and>
   \<not> shouldUseNoiseSettings (generation sample_state) \<and>
   use_cpu (sample_state\<lparr>generation := (generation sample_state)\<lparr>shouldUseNoiseSettings := True\<rparr>\<rparr>)"
proof -
  have "stage_calls sample_constants sample_stages
          (sample_state\<lparr>generation := (generation sample_state)\<lparr>shouldUseNoiseSettings := True\<rparr>\<rparr>)
        = stage_calls sample_constants sample_stages sample_state"
    by (simp add: stage_calls_def sample_stages_def)
  from noise_override_unobservable [OF this, of sample_image None] show ?thesis
    by (simp add: sample_state_def)
qed

lemma topological_order_acyclic:
  assumes "is_topological_order order g"
  shows "acyclic (edge_rel g)"
proof -
  define rank where "rank x = (case position order x of Some i \<Rightarrow> i | None \<Rightarrow> 0)" for x
  have sub: "edge_rel g \<subseteq> measure rank"
  proof
    fix p assume "p \<in> edge_rel g"
    then obtain e where e: "e \<in> set (edges g)"
      and p: "p = (node_id (source e), node_id (destination e))"
      by (auto simp add: edge_rel_def)
    from assms e have
      "case (position order (node_id (source e)), position order (node_id (destination e))) of
          (Some i, Some j) \<Rightarrow> i < j | _ \<Rightarrow> False"
      unfolding is_topological_order_def by blast
    then show "p \<in> measure rank"
      by (auto simp add: p rank_def split: option.splits)
  qed
  have "acyclic (measure rank)"
    by (rule wf_acyclic) simp
  then show ?thesis using sub by (rule acyclic_subset)
qed

lemma position_ids:
  assumes "distinct_ids K"
  shows "position (node_ids K) (RANDOM_INT K) = Some 0"
    and "position (node_ids K) (RANGE_OF_SIZE K) = Some 1"
    and "position (node_ids K) (ITERATE K) = Some 2"
    and "position (node_ids K) (NOISE K) = Some 3"
    and "position (node_ids K) (SDXL_MODEL_LOADER K) = Some 4"
    and "position (node_ids K) (POSITIVE_CONDITIONING K) = Some 5"
    and "position (node_ids K) (NEGATIVE_CONDITIONING K) = Some 6"
    and "position (node_ids K) (INPAINT_INFILL K) = Some 7"
    and "position (node_ids K) (INPAINT_IMAGE K) = Some 8"
    and "position (node_ids K) (MASK_FROM_ALPHA K) = Some 9"
    and "position (node_ids K) (MASK_COMBINE K) = Some 10"
    and "position (node_ids K) (MASK_BLUR K) = Some 11"
    and "position (node_ids K) (INPAINT K) = Some 12"
    and "position (node_ids K) (LATENTS_TO_IMAGE K) = Some 13"
    and "position (node_ids K) (COLOR_CORRECT K) = Some 14"
    and "position (node_ids K) (CANVAS_OUTPUT K) = Some 15"
  using distinct_ids_both [OF assms] by (simp_all add: node_ids_def)

lemma base_topological:
  "distinct_ids K \<Longrightarrow> is_topological_order (node_ids K) (base_graph K st mdl i m)"
  by (simp add: is_topological_order_def base_graph_def base_edges_def mk_edge_def position_ids)

lemma base_endpoints: "endpoints_resolvable (base_graph K st mdl i m)"
  by (simp add: endpoints_resolvable_def base_graph_def dom_base_nodes base_keys base_edges_def
        mk_edge_def)

lemma invocation_id_update_start [simp]:
  "invocation_id (AList.update ''start'' v n) = invocation_id n"
  by (simp add: invocation_id_def update_conv')

lemma ids_match_keys_upd:
  "ids_match_keys g \<Longrightarrow> invocation_id n = k \<Longrightarrow> ids_match_keys (g\<lparr>nodes := (nodes g)(k \<mapsto> n)\<rparr>)"
  by (simp add: ids_match_keys_def)

lemma endpoints_resolvable_upd:
  "endpoints_resolvable g \<Longrightarrow> endpoints_resolvable (g\<lparr>nodes := (nodes g)(k \<mapsto> n)\<rparr>)"
  by (simp add: endpoints_resolvable_def)

lemma endpoints_resolvable_push:
  "endpoints_resolvable g \<Longrightarrow> a \<in> dom (nodes g) \<Longrightarrow> b \<in> dom (nodes g) \<Longrightarrow>
     endpoints_resolvable (g\<lparr>edges := edges g @ [mk_edge a f b f']\<rparr>)"
  by (simp add: endpoints_resolvable_def mk_edge_def)

lemma quiet_build:
  "model (generation st) = Some mdl \<Longrightarrow> handle_seed K st (base_graph K st mdl i m) = Inr g \<Longrightarrow>
     buildCanvasSDXLOutpaintGraph K quiet_stages st i m = (expected_events K st, Inr g)"
  unfolding build_Inr build_steps_Inr
  by (auto simp add: quiet_stages_def)

text \<open>
  C8. With distinct node-id constants, the graph literal followed by the seed handling
  (the run of the builder with stages that do nothing) gives a graph in which every node
  has the id it is stored under, every edge joins nodes of the graph (in the graph
  literal already, and after the seed handling), and the order \<open>assembly_order\<close> is
  a topological order of the edges, so that the edge relation is acyclic.
\<close>

theorem direct_assembly_invariants:
  assumes d: "distinct_ids K"
  shows "\<exists>g. handle_seed K st (base_graph K st mdl i m) = Inr g \<and>
           ids_match_keys g \<and>
           endpoints_resolvable (base_graph K st mdl i m) \<and> endpoints_resolvable g \<and>
           distinct (assembly_order K) \<and>
           is_topological_order (assembly_order K) g \<and> acyclic (edge_rel g) \<and>
           (model (generation st) = Some mdl \<longrightarrow>
              buildCanvasSDXLOutpaintGraph K quiet_stages st i m = (expected_events K st, Inr g))"
proof -
  let ?b = "base_graph K st mdl i m"
  have R: "RANGE_OF_SIZE K \<in> dom (nodes ?b)"
    using base_has_range [of K st mdl i m] by auto
  have main: "\<exists>g. handle_seed K st ?b = Inr g \<and> ids_match_keys g \<and> endpoints_resolvable g \<and>
                is_topological_order (node_ids K) g"
  proof (cases "shouldRandomizeSeed (generation st)")
    case True
    let ?rnd = "[(''id'', Str (RANDOM_INT K)), (''type'', Str ''rand_int'')]"
    let ?n = "?b\<lparr>nodes := (nodes ?b)(RANDOM_INT K \<mapsto> ?rnd)\<rparr>"
    let ?e = "mk_edge (RANDOM_INT K) ''a'' (RANGE_OF_SIZE K) ''start''"
    have 1: "ids_match_keys ?n"
      by (rule ids_match_keys_upd [OF base_ids]) (simp add: invocation_id_def)
    have 2: "endpoints_resolvable (?n\<lparr>edges := edges ?n @ [?e]\<rparr>)"
      using R by (intro endpoints_resolvable_push endpoints_resolvable_upd base_endpoints) auto
    have 3: "is_topological_order (node_ids K) (?n\<lparr>edges := edges ?n @ [?e]\<rparr>)"
      using base_topological [OF d, of st mdl i m]
      by (simp add: is_topological_order_def mk_edge_def position_ids [OF d])
    show ?thesis
      unfolding handle_seed_random [OF True]
      using 1 2 3 by (intro exI [of _ "?n\<lparr>edges := edges ?n @ [?e]\<rparr>"]) (simp add: ids_match_keys_def)
  next
    case False
    from R obtain rn where rn: "nodes ?b (RANGE_OF_SIZE K) = Some rn" by auto
    let ?n = "?b\<lparr>nodes := (nodes ?b)(RANGE_OF_SIZE K \<mapsto>
                  AList.update ''start'' (Num (seed (generation st))) rn)\<rparr>"
    have "invocation_id rn = RANGE_OF_SIZE K"
      using base_ids [of K st mdl i m] rn by (simp add: ids_match_keys_def)
    then have 1: "ids_match_keys ?n"
      by (intro ids_match_keys_upd base_ids) simp
    have 2: "endpoints_resolvable ?n"
      by (intro endpoints_resolvable_upd base_endpoints)
    have 3: "is_topological_order (node_ids K) ?n"
      using base_topological [OF d, of st mdl i m] by (simp add: is_topological_order_def)
    show ?thesis
      unfolding handle_seed_fixed [OF False rn] using 1 2 3 by blast
  qed
  then obtain g where g: "handle_seed K st ?b = Inr g" "ids_match_keys g"
    "endpoints_resolvable g" "is_topological_order (node_ids K) g" by blast
  from g(4) have "acyclic (edge_rel g)" by (rule topological_order_acyclic)
  with g base_endpoints [of K st mdl i m] quiet_build [of st mdl K i m g] show ?thesis
    using d by (intro exI [of _ g]) (simp add: assembly_order_def distinct_ids_def)
qed

theorem direct_assembly_invariants_witness:
  "\<exists>g. buildCanvasSDXLOutpaintGraph sample_constants quiet_stages sample_state_refined
          sample_image None = (expected_events sample_constants sample_state_refined, Inr g) \<and>
        ids_match_keys g \<and> endpoints_resolvable g \<and>
        is_topological_order (assembly_order sample_constants) g \<and> acyclic (edge_rel g)"
  using direct_assembly_invariants [OF sample_distinct, of sample_state_refined sample_model
          sample_image None] sample_refined_flags(1)
  by blast

subsection \<open>Binary64 arithmetic at the values of the examples\<close>

lemma binade_from_numeral:
  "binade_from (numeral k) x e =
     (if 2 \<le> x then binade_from (pred_numeral k) (x / 2) (e + 1)
      else if x < 1 then binade_from (pred_numeral k) (2 * x) (e - 1)
      else e)"
  by (simp add: numeral_eq_Suc)

lemma literal_07: "js_literal (7 / 10) = Finite (6305039478318694 / 2 ^ 53)"
  unfolding js_literal_def round64_def Let_def
  by (simp add: binade_def binade_from_numeral) (simp add: pow2_def round_half_even_def Let_def)

lemma literal_03: "js_literal (3 / 10) = Finite (5404319552844595 / 2 ^ 54)"
  unfolding js_literal_def round64_def Let_def
  by (simp add: binade_def binade_from_numeral) (simp add: pow2_def round_half_even_def Let_def)

lemma literal_08: "js_literal (4 / 5) = Finite (7205759403792794 / 2 ^ 53)"
  unfolding js_literal_def round64_def Let_def
  by (simp add: binade_def binade_from_numeral) (simp add: pow2_def round_half_even_def Let_def)

lemma one_minus_07:
  "js_minus (Finite 1) (js_literal (7 / 10)) = Finite (5404319552844596 / 2 ^ 54)"
  unfolding literal_07 js_minus.simps round64_def Let_def
  by (simp add: binade_def binade_from_numeral) (simp add: pow2_def round_half_even_def Let_def)

text \<open>A strength of \<open>1e-20\<close> is lost in the subtraction, and a half is subtracted exactly.\<close>

lemma literal_tiny: "js_literal (1 / 10 ^ 20) = Finite (6646139978924579 / 2 ^ 119)"
  unfolding js_literal_def round64_def Let_def
  by (simp add: binade_def binade_from_numeral) (simp add: pow2_def round_half_even_def Let_def)

lemma one_minus_tiny: "js_minus (Finite 1) (js_literal (1 / 10 ^ 20)) = Finite 1"
  unfolding literal_tiny js_minus.simps round64_def Let_def
  by (simp add: binade_def binade_from_numeral) (simp add: pow2_def round_half_even_def Let_def)

lemma one_minus_half: "js_minus (Finite 1) (Finite (1 / 2)) = Finite (1 / 2)"
  unfolding js_minus.simps round64_def Let_def
  by (simp add: binade_def binade_from_numeral) (simp add: pow2_def round_half_even_def Let_def)

lemma one_minus_special:
  "js_minus (Finite 1) NaN = NaN"
  "js_minus (Finite 1) Infinity = NegInfinity"
  "js_minus (Finite 1) NegInfinity = Infinity"
  "js_minus (Finite 1) (Finite 1) = Finite 0"
  by (simp_all add: round64_def)

subsection \<open>The denoiser node\<close>

lemma denoiser_node:
  assumes "distinct_ids K"
      and "\<forall>f \<in> set (stage_calls K C st). leaves_node (INPAINT K) f"
      and "buildCanvasSDXLOutpaintGraph K C st i m = (evs, Inr g)"
  shows "\<exists>n. nodes g (INPAINT K) = Some n \<and> has_type ''denoise_latents'' n \<and>
           map_of n ''denoising_start'' =
             Some (Num (js_minus (Finite 1) (img2imgStrength (generation st)))) \<and>
           map_of n ''denoising_end'' =
             Some (Num (if shouldUseSDXLRefiner (sdxl st) then refinerStart (sdxl st) else Finite 1))"
proof -
  from assms(3) obtain mdl where
    run: "run_steps (build_steps K C st) (base_graph K st mdl i m) = (evs, Inr g)"
    unfolding build_Inr by blast
  have ne: "INPAINT K \<noteq> RANDOM_INT K" "INPAINT K \<noteq> RANGE_OF_SIZE K"
    using distinct_ids_both [OF assms(1)] by (simp_all add: node_ids_def)
  have "nodes g (INPAINT K) = nodes (base_graph K st mdl i m) (INPAINT K)"
    by (rule build_keeps_node [OF assms(2) ne run])
  then show ?thesis
    by (simp add: base_graph_def base_INPAINT [OF assms(1)] has_type_def)
qed

lemma sample_strength:
  "img2imgStrength (generation sample_state) = js_literal (7 / 10)"
  "img2imgStrength (generation sample_state_refined) = js_literal (7 / 10)"
  "refinerStart (sdxl sample_state_refined) = js_literal (4 / 5)"
  by (simp_all add: sample_state_refined_def sample_state_def)

text \<open>
  The difference is taken in binary64: with the strength \<open>0.7\<close> the call returns a
  graph whose \<open>denoising_start\<close> is 5404319552844596 / 2 ^ 54, which JavaScript prints as
  \<open>0.30000000000000004\<close>, and not the number \<open>0.3\<close>, which is 5404319552844595 / 2 ^ 54.
\<close>

theorem denoising_start_counterexample:
  "\<not> isl (snd sample_run) \<and>
   img2imgStrength (generation sample_state) = js_literal (7 / 10) \<and>
   node_field (projr (snd sample_run)) ''inpaint'' ''denoising_start'' =
     Some (Num (Finite (5404319552844596 / 2 ^ 54))) \<and>
   node_field (projr (snd sample_run)) ''inpaint'' ''denoising_start'' \<noteq>
     Some (Num (js_literal (3 / 10)))"
proof -
  obtain g where run: "sample_run = (expected_events sample_constants sample_state, Inr g)"
    using sample_build_returns [OF sample_flags(1)] unfolding sample_run_def by blast
  have fr: "\<forall>f \<in> set (stage_calls sample_constants sample_stages sample_state).
              leaves_node (INPAINT sample_constants) f"
    by (rule sample_leaves_node) (simp_all add: sample_constants_def)
  have "INPAINT sample_constants = ''inpaint''"
    by (simp add: sample_constants_def)
  with denoiser_node [OF sample_distinct fr run [unfolded sample_run_def]]
  have "node_field g ''inpaint'' ''denoising_start'' =
          Some (Num (Finite (5404319552844596 / 2 ^ 54)))"
    by (auto simp add: node_field_def sample_strength one_minus_07)
  then show ?thesis
    by (simp add: run sample_strength literal_03)
qed

text \<open>
  C4 (amended). When the call returns a graph, the denoiser node of that graph has
  \<open>denoising_start\<close> equal to the binary64 difference of 1 and the configured strength
  (rounded to nearest, ties to even, so not always the exact difference: the strength
  \<open>0.7\<close> gives \<open>0.30000000000000004\<close>), and \<open>denoising_end\<close> equal to the refiner hand-off
  fraction when the refiner flag is set and to 1 otherwise; the node-id constants are
  distinct and the stages leave the denoiser node as built.
\<close>

theorem denoiser_fractions:
  assumes "distinct_ids K"
      and "\<forall>f \<in> set (stage_calls K C st). leaves_node (INPAINT K) f"
      and "buildCanvasSDXLOutpaintGraph K C st i m = (evs, Inr g)"
  shows "\<exists>n. nodes g (INPAINT K) = Some n \<and> has_type ''denoise_latents'' n \<and>
           map_of n ''denoising_start'' =
             Some (Num (js_minus (Finite 1) (img2imgStrength (generation st)))) \<and>
           map_of n ''denoising_end'' =
             Some (Num (if shouldUseSDXLRefiner (sdxl st) then refinerStart (sdxl st) else Finite 1))"
  using assms by (rule denoiser_node)

theorem denoiser_fractions_witness:
  "(\<exists>evs g n.
      buildCanvasSDXLOutpaintGraph sample_constants sample_stages sample_state_refined
        sample_image None = (evs, Inr g) \<and>
      nodes g ''inpaint'' = Some n \<and>
      map_of n ''denoising_start'' = Some (Num (Finite (5404319552844596 / 2 ^ 54))) \<and>
      map_of n ''denoising_end'' = Some (Num (js_literal (4 / 5)))) \<and>
   (\<exists>evs g n.
      buildCanvasSDXLOutpaintGraph sample_constants sample_stages sample_state
        sample_image None = (evs, Inr g) \<and>
      nodes g ''inpaint'' = Some n \<and>
      map_of n ''denoising_start'' = Some (Num (Finite (5404319552844596 / 2 ^ 54))) \<and>
      map_of n ''denoising_end'' = Some (Num (Finite 1)))"
proof -
  have id: "INPAINT sample_constants = ''inpaint''"
    by (simp add: sample_constants_def)
  obtain g where run:
    "buildCanvasSDXLOutpaintGraph sample_constants sample_stages sample_state_refined
       sample_image None = (expected_events sample_constants sample_state_refined, Inr g)"
    using sample_build_returns [OF sample_refined_flags(1)] by blast
  have fr: "\<forall>f \<in> set (stage_calls sample_constants sample_stages sample_state_refined).
              leaves_node (INPAINT sample_constants) f"
    by (rule sample_leaves_node) (simp_all add: sample_constants_def)
  obtain g' where run':
    "buildCanvasSDXLOutpaintGraph sample_constants sample_stages sample_state
       sample_image None = (expected_events sample_constants sample_state, Inr g')"
    using sample_build_returns [OF sample_flags(1)] by blast
  have fr': "\<forall>f \<in> set (stage_calls sample_constants sample_stages sample_state).
              leaves_node (INPAINT sample_constants) f"
    by (rule sample_leaves_node) (simp_all add: sample_constants_def)
  from denoiser_fractions [OF sample_distinct fr run] run
  have 1: "\<exists>evs g n.
      buildCanvasSDXLOutpaintGraph sample_constants sample_stages sample_state_refined
        sample_image None = (evs, Inr g) \<and>
      nodes g ''inpaint'' = Some n \<and>
      map_of n ''denoising_start'' = Some (Num (Finite (5404319552844596 / 2 ^ 54))) \<and>
      map_of n ''denoising_end'' = Some (Num (js_literal (4 / 5)))"
    by (auto simp add: id sample_strength one_minus_07 sample_refined_flags)
  from denoiser_fractions [OF sample_distinct fr' run'] run'
  have 2: "\<exists>evs g n.
      buildCanvasSDXLOutpaintGraph sample_constants sample_stages sample_state
        sample_image None = (evs, Inr g) \<and>
      nodes g ''inpaint'' = Some n \<and>
      map_of n ''denoising_start'' = Some (Num (Finite (5404319552844596 / 2 ^ 54))) \<and>
      map_of n ''denoising_end'' = Some (Num (Finite 1))"
    by (auto simp add: id sample_strength one_minus_07 sample_flags)
  from 1 2 show ?thesis by blast
qed

end
